theory Spec2Isabelle
  imports
    Main
    "HOL-Library.Word"
    "HOL-Library.Signed_Division"
    "HOL-Library.Multiset"
    "HOL-Library.Sublist"
begin

unbundle bit_operations_syntax

section \<open>Data model of mimpi.c\<close>

text \<open>
  The embedding follows \<^verbatim>\<open>src/mimpi.c\<close>. A C name that starts with an underscore
  (\<^verbatim>\<open>_MIMPI_Match\<close>, \<^verbatim>\<open>_Inbox_Save\<close>, ...) is written with the prefix \<open>priv_\<close>, since an
  Isabelle name cannot start with an underscore. \<^verbatim>\<open>int\<close> is a 32-bit word read as
  two's complement (\<open>sint\<close>), \<^verbatim>\<open>size_t\<close> a 64-bit word, \<^verbatim>\<open>uint8_t\<close> an 8-bit word.
\<close>

type_synonym c_int = "32 word"
type_synonym size_t = "64 word"
type_synonym uint8_t = "8 word"

text \<open>
  The enumerations \<^verbatim>\<open>MIMPI_Retcode\<close> and \<^verbatim>\<open>MIMPI_Op\<close> are declared in \<^verbatim>\<open>mimpi.h\<close>; the
  enumerators are the ones \<^verbatim>\<open>mimpi.c\<close> names. An object of type \<^verbatim>\<open>MIMPI_Retcode\<close> that is
  read back from the bytes of a received buffer can hold a value that is no enumerator:
  \<open>MIMPI_Retcode_other\<close> stands for such a value.
\<close>

datatype MIMPI_Retcode =
    MIMPI_SUCCESS
  | MIMPI_ERROR_ATTEMPTED_SELF_OP
  | MIMPI_ERROR_NO_SUCH_RANK
  | MIMPI_ERROR_REMOTE_FINISHED
  | MIMPI_ERROR_DEADLOCK_DETECTED
  | MIMPI_Retcode_other c_int

datatype MIMPI_Op = MIMPI_MAX | MIMPI_MIN | MIMPI_SUM | MIMPI_PROD

definition MIMPI_NOOP :: MIMPI_Op where
  "MIMPI_NOOP = MIMPI_MAX"

definition MIMPI_GROUP_TAG :: c_int where
  "MIMPI_GROUP_TAG = - 1"

definition MIMPI_CLOSE_TAG :: c_int where
  "MIMPI_CLOSE_TAG = - 2"

definition MIMPI_REQUEST_TAG :: c_int where
  "MIMPI_REQUEST_TAG = - 3"

definition MIMPI_CHILDREN :: c_int where
  "MIMPI_CHILDREN = 2"

subsection \<open>Utilities\<close>

text \<open>\<^verbatim>\<open>_MIMPI_Match\<close> (mimpi.c, lines 84-97).\<close>

definition priv_MIMPI_Match :: "size_t \<Rightarrow> c_int \<Rightarrow> size_t \<Rightarrow> c_int \<Rightarrow> bool" where
  "priv_MIMPI_Match expected_size expected_tag size' tag =
     (if expected_size \<noteq> size' then False
      else if expected_tag = 0 \<or> tag = 0 then True
      else expected_tag = tag)"

text \<open>
  \<^verbatim>\<open>_MIMPI_Reduce\<close> (lines 116-141): the loop over \<open>i < size\<close> updates \<open>result[i]\<close> from
  \<open>other[i]\<close>. \<open>Reduce_byte\<close> is the body of the \<^verbatim>\<open>switch\<close> for one index; the
  arithmetic is on \<^verbatim>\<open>uint8_t\<close>, so \<open>+\<close> and \<open>*\<close> wrap at 256. The buffers are lists; the
  loop touches the first \<open>size\<close> bytes of \<open>result\<close> and leaves the rest as it is.
\<close>

definition Reduce_byte :: "MIMPI_Op \<Rightarrow> uint8_t \<Rightarrow> uint8_t \<Rightarrow> uint8_t" where
  "Reduce_byte op r o' =
     (case op of
        MIMPI_MAX \<Rightarrow> (if o' > r then o' else r)
      | MIMPI_MIN \<Rightarrow> (if o' < r then o' else r)
      | MIMPI_SUM \<Rightarrow> r + o'
      | MIMPI_PROD \<Rightarrow> r * o')"

fun priv_MIMPI_Reduce_loop ::
  "nat \<Rightarrow> uint8_t list \<Rightarrow> uint8_t list \<Rightarrow> MIMPI_Op \<Rightarrow> uint8_t list" where
  "priv_MIMPI_Reduce_loop 0 result other op = result"
| "priv_MIMPI_Reduce_loop (Suc n) [] other op = []"
| "priv_MIMPI_Reduce_loop (Suc n) (r # result) [] op = r # result"
| "priv_MIMPI_Reduce_loop (Suc n) (r # result) (x # other) op =
     Reduce_byte op r x # priv_MIMPI_Reduce_loop n result other op"

definition priv_MIMPI_Reduce ::
  "uint8_t list \<Rightarrow> uint8_t list \<Rightarrow> size_t \<Rightarrow> MIMPI_Op \<Rightarrow> uint8_t list" where
  "priv_MIMPI_Reduce result other size' op =
     priv_MIMPI_Reduce_loop (unat size') result other op"

text \<open>
  C's \<^verbatim>\<open>/\<close> and \<^verbatim>\<open>%\<close> on \<^verbatim>\<open>int\<close> truncate towards zero (\<open>sdiv\<close>, \<open>smod\<close>); the result
  is stored back in 32 bits.
\<close>

definition c_div :: "c_int \<Rightarrow> c_int \<Rightarrow> c_int" where
  "c_div a b = word_of_int (sint a sdiv sint b)"

definition c_mod :: "c_int \<Rightarrow> c_int \<Rightarrow> c_int" where
  "c_mod a b = word_of_int (sint a smod sint b)"

text \<open>
  \<^verbatim>\<open>_MIMPI_Get_Neighbours\<close> (lines 143-165) writes \<open>*parent\<close> and \<open>children[0]\<close>,
  \<open>children[1]\<close>; the model returns them. The loop runs for \<open>i = 0\<close> and \<open>i = 1\<close>
  (\<open>MIMPI_CHILDREN\<close> is 2).
\<close>

definition Get_Neighbours_child :: "c_int \<Rightarrow> c_int \<Rightarrow> c_int \<Rightarrow> c_int \<Rightarrow> c_int" where
  "Get_Neighbours_child index' root size' i =
     (let child = index' * MIMPI_CHILDREN + i
      in if size' <s child then - 1 else c_mod (child + root - 1) size')"

definition priv_MIMPI_Get_Neighbours :: "c_int \<Rightarrow> c_int \<Rightarrow> c_int \<Rightarrow> c_int \<times> c_int list" where
  "priv_MIMPI_Get_Neighbours rank root size' =
     (let index' = c_mod (size' + rank - root) size' + 1;
          parent = (if index' = 1 then - 1
                    else c_mod (c_div index' MIMPI_CHILDREN + root - 1) size')
      in (parent, map (Get_Neighbours_child index' root size') [0, 1]))"

text \<open>\<^verbatim>\<open>_MIMPI_Update_Retcode\<close> (lines 167-192).\<close>

definition priv_MIMPI_Update_Retcode :: "MIMPI_Retcode \<Rightarrow> MIMPI_Retcode \<Rightarrow> MIMPI_Retcode" where
  "priv_MIMPI_Update_Retcode retcode other =
     (if retcode = MIMPI_ERROR_NO_SUCH_RANK \<or> other = MIMPI_ERROR_NO_SUCH_RANK
        then MIMPI_ERROR_NO_SUCH_RANK
      else if retcode = MIMPI_ERROR_ATTEMPTED_SELF_OP \<or> other = MIMPI_ERROR_ATTEMPTED_SELF_OP
        then MIMPI_ERROR_ATTEMPTED_SELF_OP
      else if retcode = MIMPI_ERROR_REMOTE_FINISHED \<or> other = MIMPI_ERROR_REMOTE_FINISHED
        then MIMPI_ERROR_REMOTE_FINISHED
      else if retcode = MIMPI_ERROR_DEADLOCK_DETECTED \<or> other = MIMPI_ERROR_DEADLOCK_DETECTED
        then MIMPI_ERROR_DEADLOCK_DETECTED
      else MIMPI_SUCCESS)"

subsection \<open>Inbox entries and their matching\<close>

text \<open>
  Modelled from the spec: the macro \<^verbatim>\<open>MIMPI_ANY_TAG\<close> of \<^verbatim>\<open>mimpi.h\<close>, which is not among
  the sources. Section 3 of the specification: "tag 0 means match any", and the sentinel
  \<open>ANY_TAG\<close> "denotes the same wildcard semantics".
\<close>

definition MIMPI_ANY_TAG :: c_int where
  "MIMPI_ANY_TAG = 0"

datatype Inbox_Message_Type =
  INBOX_MESSAGE | INBOX_REQUEST | INBOX_CLOSE | INBOX_GUARD | INBOX_DEADLOCK

text \<open>
  A pointer to a buffer of payload bytes. The only such buffers are the blocks the
  receiver thread of an inbox allocates in \<^verbatim>\<open>_Receiver_Receive\<close>; the model numbers them in
  the order of their allocation. \<open>Indeterminate\<close> is the value of the local variable
  \<open>data\<close> of \<^verbatim>\<open>Receiver_Main\<close> before anything is assigned to it.
\<close>

datatype pointer = NULL | Block nat | Indeterminate

text \<open>
  \<^verbatim>\<open>struct Inbox_Message\<close>: the fields \<open>type\<close>, \<open>tag\<close>, \<open>size\<close> and \<open>data\<close>. The pointer
  \<open>data\<close> is \<open>im_block\<close>, and \<open>im_data\<close> are the bytes of the buffer it pointed to when
  the entry was saved (none for the null pointer). The fields \<open>next\<close> and \<open>available\<close>
  are the position in the list of entries below.
\<close>

record Inbox_Message =
  im_type :: Inbox_Message_Type
  im_tag :: c_int
  im_size :: size_t
  im_block :: pointer
  im_data :: "uint8_t list"

text \<open>\<^verbatim>\<open>_Inbox_Match\<close> (lines 258-270).\<close>

definition priv_Inbox_Match :: "Inbox_Message \<Rightarrow> c_int \<Rightarrow> size_t \<Rightarrow> bool" where
  "priv_Inbox_Match message tag size' =
     (if im_size message \<noteq> size' then False
      else if im_tag message = MIMPI_ANY_TAG \<or> tag = MIMPI_ANY_TAG then True
      else im_tag message = tag)"

subsection \<open>Outbox\<close>

text \<open>
  \<^verbatim>\<open>struct Outbox\<close> is a singly linked stack of \<^verbatim>\<open>struct Outbox_Message\<close>: the list of its
  nodes from \<open>top\<close>. \<^verbatim>\<open>Outbox_Init\<close>, \<^verbatim>\<open>Outbox_Push\<close> and \<^verbatim>\<open>Outbox_Pop\<close> are lines 196-254;
  \<open>Outbox_Pop\<close> returns its result together with the outbox it leaves.
\<close>

record Outbox_Message =
  om_tag :: c_int
  om_size :: size_t

type_synonym Outbox = "Outbox_Message list"

definition Outbox_Init :: Outbox where
  "Outbox_Init = []"

definition Outbox_Push :: "Outbox \<Rightarrow> c_int \<Rightarrow> size_t \<Rightarrow> Outbox" where
  "Outbox_Push outbox tag size' = \<lparr>om_tag = tag, om_size = size'\<rparr> # outbox"

fun Outbox_Pop :: "Outbox \<Rightarrow> c_int \<Rightarrow> size_t \<Rightarrow> bool \<times> Outbox" where
  "Outbox_Pop [] tag size' = (False, [])"
| "Outbox_Pop (message # rest) tag size' =
     (if \<not> priv_MIMPI_Match size' tag (om_size message) (om_tag message)
      then (case Outbox_Pop rest tag size' of (found, rest') \<Rightarrow> (found, message # rest'))
      else (True, rest))"

subsection \<open>Inbox\<close>

text \<open>
  \<^verbatim>\<open>struct Inbox\<close>: \<open>ib_entries\<close> is the list of the nodes strictly between the guard
  \<open>front\<close> and the sentinel \<open>back\<close>, in the order of the \<open>next\<close> pointers. These are the
  nodes whose semaphore \<open>available\<close> has been posted; the sentinel \<open>back\<close> is the one a
  consumer waits on. \<^verbatim>\<open>_Inbox_Save\<close> (lines 287-304) fills the old sentinel and links a
  new one behind it, which appends an entry to the list.

  With the inbox the model keeps the part of the heap its receiver thread allocates:
  \<open>ib_blocks\<close> is the number of blocks allocated so far, and \<open>ib_heap\<close> the set of those that
  have been freed; it is \<open>None\<close> once the receiver thread has called \<^verbatim>\<open>free\<close> with a pointer
  that is not a block in use, from where on the C standard defines no behaviour.
\<close>

record Inbox =
  ib_rank :: c_int
  ib_entries :: "Inbox_Message list"
  ib_deadlocks :: size_t
  ib_blocks :: nat
  ib_heap :: "nat set option"

definition Inbox_Init :: "c_int \<Rightarrow> Inbox" where
  "Inbox_Init rank =
     \<lparr>ib_rank = rank, ib_entries = [], ib_deadlocks = 0, ib_blocks = 0, ib_heap = Some {}\<rparr>"

definition priv_Inbox_Save ::
  "Inbox \<Rightarrow> Inbox_Message_Type \<Rightarrow> c_int \<Rightarrow> size_t \<Rightarrow> pointer \<Rightarrow> uint8_t list \<Rightarrow> Inbox" where
  "priv_Inbox_Save inbox type' tag size' block data =
     inbox\<lparr>ib_entries := ib_entries inbox @
       [\<lparr>im_type = type', im_tag = tag, im_size = size', im_block = block, im_data = data\<rparr>]\<rparr>"

definition Inbox_Save_Message ::
  "Inbox \<Rightarrow> c_int \<Rightarrow> size_t \<Rightarrow> pointer \<Rightarrow> uint8_t list \<Rightarrow> Inbox" where
  "Inbox_Save_Message inbox tag size' block data =
     priv_Inbox_Save inbox INBOX_MESSAGE tag size' block data"

definition Inbox_Save_Request :: "Inbox \<Rightarrow> c_int \<Rightarrow> size_t \<Rightarrow> Inbox" where
  "Inbox_Save_Request inbox tag size' = priv_Inbox_Save inbox INBOX_REQUEST tag size' NULL []"

definition Inbox_Close :: "Inbox \<Rightarrow> Inbox" where
  "Inbox_Close inbox = priv_Inbox_Save inbox INBOX_CLOSE 0 0 NULL []"

text \<open>
  A call returns, or waits for ever on the semaphore of the sentinel (\<open>Blocks\<close>), or does
  something for which the C standard defines no behaviour (\<open>Undefined\<close>): it reads through
  or frees a pointer that is not a block in use.
\<close>

datatype 'a outcome = Returns 'a | Blocks | Undefined

text \<open>
  \<^verbatim>\<open>free\<close> on the blocks of one inbox, of which \<open>freed\<close> have been freed: the result is the
  set of freed blocks after the call, or \<open>None\<close> when the pointer is no block in use (a
  block freed before, or an indeterminate value). \<open>readable freed p\<close>: \<open>p\<close> points to a
  block in use, so that the bytes of the block may be read through it.
\<close>

definition free :: "nat set \<Rightarrow> pointer \<Rightarrow> nat set option" where
  "free freed p =
     (case p of
        NULL \<Rightarrow> Some freed
      | Block b \<Rightarrow> if b \<in> freed then None else Some (insert b freed)
      | Indeterminate \<Rightarrow> None)"

definition readable :: "nat set \<Rightarrow> pointer \<Rightarrow> bool" where
  "readable freed p \<longleftrightarrow>
     (case p of NULL \<Rightarrow> False | Block b \<Rightarrow> b \<notin> freed | Indeterminate \<Rightarrow> False)"

text \<open>
  \<^verbatim>\<open>_Inbox_Delete\<close> (lines 306-317), as far as \<open>if (message->data) free(message->data)\<close>
  goes; the caller unlinks the node.
\<close>

definition priv_Inbox_Delete :: "nat set \<Rightarrow> Inbox_Message \<Rightarrow> nat set option" where
  "priv_Inbox_Delete freed message =
     (if im_block message \<noteq> NULL then free freed (im_block message) else Some freed)"

text \<open>
  \<open>read_bytes n src\<close> are the \<open>n\<close> bytes at \<open>src\<close>. C requires \<open>src\<close> to hold them; where
  it holds fewer the model reads zero bytes behind its end.
\<close>

definition read_bytes :: "nat \<Rightarrow> uint8_t list \<Rightarrow> uint8_t list" where
  "read_bytes n src = take n src @ replicate (n - length src) 0"

text \<open>
  \<open>memmove dst src n\<close> (also \<^verbatim>\<open>memcpy\<close>): the first \<open>n\<close> bytes of \<open>dst\<close> become the \<open>n\<close>
  bytes at \<open>src\<close>.
\<close>

definition memmove :: "uint8_t list \<Rightarrow> uint8_t list \<Rightarrow> size_t \<Rightarrow> uint8_t list" where
  "memmove dst src n = read_bytes (unat n) src @ drop (unat n) dst"

text \<open>
  The loop of \<^verbatim>\<open>Inbox_Retrieve\<close> (lines 379-421). \<open>passed\<close> are the nodes from \<open>front\<close>
  up to \<open>previous\<close> that stay linked, the last argument list starts at \<open>message->next\<close>.
  \<open>dd\<close> is \<open>MIMPI_deadlock_detection\<close>, \<open>outbox\<close> is \<open>MIMPI_outboxes[inbox->rank]\<close>, \<open>freed\<close>
  are the freed blocks of the inbox. The result is the return code, the entries left in
  the inbox, the outbox, the freed blocks and the caller's buffer \<open>data\<close>. Where the
  outcome is \<open>Undefined\<close> the other components have no meaning for the program; the model
  gives the entries without the node at which it happened.

  In the branch of a request the source declares \<open>size_t size = message->size\<close> and
  \<open>int tag = message->tag\<close> and calls \<open>Outbox_Pop(&MIMPI_outboxes[inbox->rank], size, tag)\<close>,
  while \<open>Outbox_Pop\<close> is declared with the parameters \<open>(outbox, int tag, size_t size)\<close>:
  the size is converted to \<^verbatim>\<open>int\<close> and arrives as \<open>tag\<close>, the tag is converted to
  \<^verbatim>\<open>size_t\<close> and arrives as \<open>size\<close>.
\<close>

fun Inbox_Retrieve_loop ::
  "bool \<Rightarrow> c_int \<Rightarrow> size_t \<Rightarrow> uint8_t list \<Rightarrow> Inbox_Message list \<Rightarrow> Outbox \<Rightarrow> nat set \<Rightarrow>
   Inbox_Message list \<Rightarrow>
   MIMPI_Retcode outcome \<times> Inbox_Message list \<times> Outbox \<times> nat set \<times> uint8_t list" where
  "Inbox_Retrieve_loop dd tag size' data passed outbox freed [] =
     (Blocks, passed, outbox, freed, data)"
| "Inbox_Retrieve_loop dd tag size' data passed outbox freed (message # rest) =
     (if im_type message = INBOX_CLOSE
        then (Returns MIMPI_ERROR_REMOTE_FINISHED, passed @ message # rest, outbox, freed, data)
      else if im_type message = INBOX_REQUEST then
        (if \<not> dd
         then Inbox_Retrieve_loop dd tag size' data (passed @ [message]) outbox freed rest
         else (case priv_Inbox_Delete freed message of
                 None \<Rightarrow> (Undefined, passed @ rest, outbox, freed, data)
               | Some freed' \<Rightarrow>
                   (case Outbox_Pop outbox (ucast (im_size message)) (scast (im_tag message)) of
                      (True, outbox') \<Rightarrow>
                        Inbox_Retrieve_loop dd tag size' data passed outbox' freed' rest
                    | (False, outbox') \<Rightarrow>
                        (Returns MIMPI_ERROR_DEADLOCK_DETECTED, passed @ rest, outbox', freed',
                         data))))
      else if im_type message = INBOX_DEADLOCK then
        (if \<not> dd
         then Inbox_Retrieve_loop dd tag size' data (passed @ [message]) outbox freed rest
         else (case priv_Inbox_Delete freed message of
                 None \<Rightarrow> (Undefined, passed @ rest, outbox, freed, data)
               | Some freed' \<Rightarrow> Inbox_Retrieve_loop dd tag size' data passed outbox freed' rest))
      else if im_type message = INBOX_MESSAGE \<and> priv_Inbox_Match message tag size' then
        (if \<not> readable freed (im_block message)
         then (Undefined, passed @ rest, outbox, freed, data)
         else (case priv_Inbox_Delete freed message of
                 None \<Rightarrow> (Undefined, passed @ rest, outbox, freed, data)
               | Some freed' \<Rightarrow>
                   (Returns MIMPI_SUCCESS, passed @ rest, outbox, freed',
                    memmove data (im_data message) size')))
      else Inbox_Retrieve_loop dd tag size' data (passed @ [message]) outbox freed rest)"

text \<open>
  The nodes one call of the loop inspects, in the order in which \<open>message\<close> points to them
  (for each the call waits on \<open>available\<close> and reads \<open>type\<close>): the same case
  distinction as \<open>Inbox_Retrieve_loop\<close>, recording the node instead of the result.
  \<open>stays_linked\<close> tells whether the loop leaves an inspected node in the list: it
  unlinks requests and deadlock markers under deadlock detection and the message it
  returns.
\<close>

fun Inbox_Retrieve_visits ::
  "bool \<Rightarrow> c_int \<Rightarrow> size_t \<Rightarrow> Outbox \<Rightarrow> nat set \<Rightarrow> Inbox_Message list \<Rightarrow> Inbox_Message list" where
  "Inbox_Retrieve_visits dd tag size' outbox freed [] = []"
| "Inbox_Retrieve_visits dd tag size' outbox freed (message # rest) =
     message #
     (if im_type message = INBOX_CLOSE then []
      else if im_type message = INBOX_REQUEST then
        (if \<not> dd then Inbox_Retrieve_visits dd tag size' outbox freed rest
         else (case priv_Inbox_Delete freed message of
                 None \<Rightarrow> []
               | Some freed' \<Rightarrow>
                   (case Outbox_Pop outbox (ucast (im_size message)) (scast (im_tag message)) of
                      (True, outbox') \<Rightarrow> Inbox_Retrieve_visits dd tag size' outbox' freed' rest
                    | (False, outbox') \<Rightarrow> [])))
      else if im_type message = INBOX_DEADLOCK then
        (if \<not> dd then Inbox_Retrieve_visits dd tag size' outbox freed rest
         else (case priv_Inbox_Delete freed message of
                 None \<Rightarrow> []
               | Some freed' \<Rightarrow> Inbox_Retrieve_visits dd tag size' outbox freed' rest))
      else if im_type message = INBOX_MESSAGE \<and> priv_Inbox_Match message tag size' then []
      else Inbox_Retrieve_visits dd tag size' outbox freed rest)"

definition stays_linked :: "bool \<Rightarrow> c_int \<Rightarrow> size_t \<Rightarrow> Inbox_Message \<Rightarrow> bool" where
  "stays_linked dd tag size' message =
     (if im_type message = INBOX_REQUEST \<or> im_type message = INBOX_DEADLOCK then \<not> dd
      else \<not> (im_type message = INBOX_MESSAGE \<and> priv_Inbox_Match message tag size'))"

subsection \<open>Packets\<close>

text \<open>
  The bytes of an object in memory, least significant byte first (the layout of the
  x86-64 and AArch64 targets; sender and receiver run on the same machine).
\<close>

fun le_bytes :: "nat \<Rightarrow> 'a::len word \<Rightarrow> uint8_t list" where
  "le_bytes 0 w = []"
| "le_bytes (Suc n) w = ucast w # le_bytes n (drop_bit 8 w)"

fun le_word :: "uint8_t list \<Rightarrow> 'a::len word" where
  "le_word [] = 0"
| "le_word (b # bs) = ucast b OR push_bit 8 (le_word bs)"

text \<open>
  \<^verbatim>\<open>header_t\<close> (lines 31-34) is \<open>{size_t size; int tag;}\<close>: 8 bytes of \<open>size\<close>, 4 bytes of
  \<open>tag\<close> and 4 bytes of padding, 16 bytes in all. \<^verbatim>\<open>prefix_t\<close> (lines 36-39) is a header
  and \<open>MIMPI_PACKET_SIZE - sizeof(header_t)\<close> bytes of data.
\<close>

definition MIMPI_PACKET_SIZE :: size_t where
  "MIMPI_PACKET_SIZE = 512"

definition sizeof_header_t :: size_t where
  "sizeof_header_t = 16"

definition MIMPI_PREFIX_SIZE :: size_t where
  "MIMPI_PREFIX_SIZE = MIMPI_PACKET_SIZE - sizeof_header_t"

definition sizeof_prefix_t :: size_t where
  "sizeof_prefix_t = MIMPI_PACKET_SIZE"

record header_t =
  h_size :: size_t
  h_tag :: c_int

record prefix_t =
  p_header :: header_t
  p_data :: "uint8_t list"

text \<open>The bytes of a header that was cleared with \<open>memset\<close> before its fields were set.\<close>

definition header_bytes :: "header_t \<Rightarrow> uint8_t list" where
  "header_bytes h = le_bytes 8 (h_size h) @ le_bytes 4 (h_tag h) @ [0, 0, 0, 0]"

definition header_of_bytes :: "uint8_t list \<Rightarrow> header_t" where
  "header_of_bytes bs =
     \<lparr>h_size = le_word (take 8 bs), h_tag = le_word (take 4 (drop 8 bs))\<rparr>"

definition prefix_bytes :: "prefix_t \<Rightarrow> uint8_t list" where
  "prefix_bytes p =
     header_bytes (p_header p) @ read_bytes (unat MIMPI_PREFIX_SIZE) (p_data p)"

definition prefix_of_bytes :: "uint8_t list \<Rightarrow> prefix_t" where
  "prefix_of_bytes bs =
     \<lparr>p_header = header_of_bytes (take 16 bs), p_data = drop 16 bs\<rparr>"

subsection \<open>Channels\<close>

text \<open>
  Modelled from the spec: \<^verbatim>\<open>chsend\<close> and \<^verbatim>\<open>chrecv\<close> of \<^verbatim>\<open>channel.h\<close>, which is not among
  the sources. Section 1 of the specification: a channel is "a reliable, ordered,
  bytewise stream with blocking send and receive"; section 4.1: a send fails "if the
  channel refuses a byte", a read fails at the end of the stream.

  A channel one writes to is the bytes written so far and whether the reading end is
  still open. \<^verbatim>\<open>chsend_all\<close> (lines 447-462) returns \<open>count\<close> when every \<^verbatim>\<open>chsend\<close> succeeds
  and \<open>-1\<close> when one fails; it does not call \<^verbatim>\<open>chsend\<close> at all for \<open>count = 0\<close>. In the
  model a closed channel refuses the first byte.
\<close>

record channel =
  ch_open :: bool
  ch_bytes :: "uint8_t list"

definition chsend_all :: "channel \<Rightarrow> uint8_t list \<Rightarrow> size_t \<Rightarrow> int \<times> channel" where
  "chsend_all ch buffer count' =
     (if count' = 0 then (0, ch)
      else if ch_open ch
        then (uint count', ch\<lparr>ch_bytes := ch_bytes ch @ read_bytes (unat count') buffer\<rparr>)
      else (- 1, ch))"

text \<open>
  A channel one reads from is the bytes that arrive before the end of the stream.
  \<^verbatim>\<open>chrecv_all\<close> (lines 428-444) returns \<open>count\<close> with the bytes read, and \<open>-1\<close> when the
  stream ends first; for \<open>count = 0\<close> it returns 0. The result is the return value, the
  bytes stored in the buffer and the rest of the stream.
\<close>

definition chrecv_all :: "uint8_t list \<Rightarrow> size_t \<Rightarrow> int \<times> uint8_t list \<times> uint8_t list" where
  "chrecv_all stream count' =
     (if count' = 0 then (0, [], stream)
      else if length stream < unat count' then (- 1, stream, [])
      else (uint count', take (unat count') stream, drop (unat count') stream))"

subsection \<open>Receiver\<close>

text \<open>
  \<^verbatim>\<open>_Receiver_Receive\<close> (lines 466-501). \<open>tag\<close>, \<open>size\<close> and \<open>data\<close> are the values of
  \<open>*tag\<close>, \<open>*size\<close> and of the buffer \<open>*data\<close> points to before the call; the result holds
  them after the call, and the rest of the stream. For \<open>size = 0\<close> the function returns
  without assigning \<open>*data\<close>, which keeps the pointer of an earlier packet.
\<close>

definition priv_Receiver_Receive ::
  "c_int \<Rightarrow> size_t \<Rightarrow> uint8_t list \<Rightarrow> uint8_t list \<Rightarrow>
   bool \<times> c_int \<times> size_t \<times> uint8_t list \<times> uint8_t list" where
  "priv_Receiver_Receive tag size' data stream =
     (case chrecv_all stream sizeof_prefix_t of (r, buffer, stream1) \<Rightarrow>
        if r \<le> 0 then (False, tag, size', data, stream1)
        else
          let prefix' = prefix_of_bytes buffer;
              tag1 = h_tag (p_header prefix');
              size1 = h_size (p_header prefix')
          in if size1 = 0 then (True, tag1, size1, data, stream1)
             else
               let prefix_count = (if size1 > MIMPI_PREFIX_SIZE then MIMPI_PREFIX_SIZE else size1);
                   suffix_count = size1 - prefix_count;
                   data1 = read_bytes (unat prefix_count) (p_data prefix')
               in if size1 \<le> MIMPI_PREFIX_SIZE then (True, tag1, size1, data1, stream1)
                  else (case chrecv_all stream1 suffix_count of (r2, suffix', stream2) \<Rightarrow>
                          if r2 \<le> 0 then (False, tag1, size1, [], stream2)
                          else (True, tag1, size1, data1 @ suffix', stream2)))"

lemma priv_Receiver_Receive_shorter:
  assumes "(ok, tag1, size1, data1, stream1) = priv_Receiver_Receive tag size' data stream"
    and "ok"
  shows "length stream1 < length stream"
  using assms
  by (auto simp: priv_Receiver_Receive_def chrecv_all_def sizeof_prefix_t_def
      MIMPI_PACKET_SIZE_def Let_def split: if_splits prod.splits)

text \<open>
  The pointer \<open>*data\<close> and the heap after \<^verbatim>\<open>_Receiver_Receive\<close> has returned true with the
  size \<open>size1\<close>: it assigns \<open>*data = malloc(*size)\<close> exactly when the size is not 0 (lines
  480-483); \<open>block\<close> is the pointer before the call.
\<close>

definition Receiver_data :: "Inbox \<Rightarrow> pointer \<Rightarrow> size_t \<Rightarrow> pointer" where
  "Receiver_data inbox block size1 = (if size1 = 0 then block else Block (ib_blocks inbox))"

definition Receiver_malloc :: "Inbox \<Rightarrow> size_t \<Rightarrow> Inbox" where
  "Receiver_malloc inbox size1 =
     (if size1 = 0 then inbox else inbox\<lparr>ib_blocks := Suc (ib_blocks inbox)\<rparr>)"

text \<open>
  The branch of a request in \<^verbatim>\<open>Receiver_Main\<close> (lines 516-521): it reads a header through
  \<open>data\<close>, saves the request and frees \<open>data\<close>. \<open>block\<close> is the pointer and \<open>data\<close> the bytes of
  its block. Where the pointer is no block in use or the block is shorter than a header,
  the read has no defined behaviour.
\<close>

definition Receiver_request :: "Inbox \<Rightarrow> pointer \<Rightarrow> uint8_t list \<Rightarrow> Inbox" where
  "Receiver_request inbox block data =
     (case ib_heap inbox of
        None \<Rightarrow> inbox
      | Some freed \<Rightarrow>
          if readable freed block \<and> unat sizeof_header_t \<le> length data
          then (Inbox_Save_Request inbox (h_tag (header_of_bytes data))
                  (h_size (header_of_bytes data)))\<lparr>ib_heap := free freed block\<rparr>
          else inbox\<lparr>ib_heap := None\<rparr>)"

text \<open>
  The loop of \<^verbatim>\<open>Receiver_Main\<close> (lines 513-524); \<open>tag\<close>, \<open>size\<close> and \<open>data\<close> are the
  locals of that name, \<open>data\<close> as the pointer \<open>block\<close> and the bytes of its block. A block
  that \<^verbatim>\<open>_Receiver_Receive\<close> allocates and frees again before it returns false leaves no
  trace.
\<close>

function Receiver_Main_loop ::
  "Inbox \<Rightarrow> c_int \<Rightarrow> size_t \<Rightarrow> pointer \<Rightarrow> uint8_t list \<Rightarrow> uint8_t list \<Rightarrow> Inbox" where
  "Receiver_Main_loop inbox tag size' block data stream =
     (case priv_Receiver_Receive tag size' data stream of
        (ok, tag1, size1, data1, stream1) \<Rightarrow>
          if \<not> ok then inbox
          else if tag1 = MIMPI_CLOSE_TAG then Receiver_malloc inbox size1
          else if tag1 = MIMPI_REQUEST_TAG then
            Receiver_Main_loop
              (Receiver_request (Receiver_malloc inbox size1)
                 (Receiver_data inbox block size1) data1)
              tag1 size1 (Receiver_data inbox block size1) data1 stream1
          else Receiver_Main_loop
                 (Inbox_Save_Message (Receiver_malloc inbox size1) tag1 size1
                    (Receiver_data inbox block size1) data1)
                 tag1 size1 (Receiver_data inbox block size1) data1 stream1)"
  by pat_completeness auto
termination
  apply (relation "measure (\<lambda>(inbox, tag, size', block, data, stream). length stream)")
   apply simp
  apply (auto dest: priv_Receiver_Receive_shorter)
  done

declare Receiver_Main_loop.simps [simp del]

text \<open>
  \<^verbatim>\<open>Receiver_Main\<close> (lines 503-531) on an inbox and the bytes of its channel: the locals
  start without a value (zero, an indeterminate pointer and no bytes in the model), and
  the inbox is closed when the loop ends.
\<close>

definition Receiver_Main :: "Inbox \<Rightarrow> uint8_t list \<Rightarrow> Inbox" where
  "Receiver_Main inbox stream =
     Inbox_Close (Receiver_Main_loop inbox 0 0 Indeterminate [] stream)"

subsection \<open>The state of one process\<close>

text \<open>
  The globals of \<^verbatim>\<open>mimpi.c\<close> (lines 77-80), the cached \<open>MIMPI_World_rank()\<close> and
  \<open>MIMPI_World_size()\<close>, and the outbound channels: \<open>MIMPI_writers st r\<close> is the channel
  behind the descriptor \<open>MIMPI_CHANNEL_WRITER + r\<close>. \<open>MIMPI_outboxes\<close> is \<open>None\<close> for the
  null pointer. An array is a function of its index.
\<close>

record world =
  MIMPI_World_rank :: c_int
  MIMPI_World_size :: c_int
  MIMPI_deadlock_detection :: bool
  MIMPI_inboxes :: "c_int \<Rightarrow> Inbox"
  MIMPI_outboxes :: "(c_int \<Rightarrow> Outbox) option"
  MIMPI_writers :: "c_int \<Rightarrow> channel"

text \<open>
  \<^verbatim>\<open>MIMPI_Init\<close> (lines 717-750), given the rank and the size of the environment and the
  channels the launcher has wired. The receiver threads it starts are \<open>Receiver_Main\<close>.
\<close>

definition MIMPI_Init :: "c_int \<Rightarrow> c_int \<Rightarrow> (c_int \<Rightarrow> channel) \<Rightarrow> bool \<Rightarrow> world" where
  "MIMPI_Init rank size' writers enable_deadlock_detection =
     \<lparr>MIMPI_World_rank = rank,
      MIMPI_World_size = size',
      MIMPI_deadlock_detection = enable_deadlock_detection,
      MIMPI_inboxes = (\<lambda>rank. Inbox_Init rank),
      MIMPI_outboxes =
        (if enable_deadlock_detection then Some (\<lambda>rank. Outbox_Init) else None),
      MIMPI_writers = writers\<rparr>"

text \<open>
  \<^verbatim>\<open>Inbox_Retrieve\<close> (lines 370-424) on the inbox \<open>MIMPI_inboxes[source]\<close>. \<open>MIMPI_Init\<close>
  allocates \<open>MIMPI_outboxes\<close> exactly when it sets \<open>MIMPI_deadlock_detection\<close>, and the loop
  reads the outbox only under that flag. Where the receiver thread has left the heap
  without defined behaviour the call has none either.
\<close>

definition Inbox_Retrieve ::
  "world \<Rightarrow> c_int \<Rightarrow> c_int \<Rightarrow> size_t \<Rightarrow> uint8_t list \<Rightarrow>
   MIMPI_Retcode outcome \<times> world \<times> uint8_t list" where
  "Inbox_Retrieve st source tag size' data =
     (let inbox = MIMPI_inboxes st source;
          outbox = (case MIMPI_outboxes st of
                      None \<Rightarrow> []
                    | Some outboxes \<Rightarrow> outboxes (ib_rank inbox))
      in case ib_heap inbox of
           None \<Rightarrow> (Undefined, st, data)
         | Some freed \<Rightarrow>
             (case Inbox_Retrieve_loop (MIMPI_deadlock_detection st) tag size' data [] outbox
                     freed (ib_entries inbox) of
                (retcode, entries, outbox', freed', data') \<Rightarrow>
                  (retcode,
                   st\<lparr>MIMPI_inboxes := (MIMPI_inboxes st)
                        (source := inbox\<lparr>ib_entries := entries, ib_heap := Some freed'\<rparr>),
                      MIMPI_outboxes :=
                        map_option (\<lambda>outboxes. outboxes(ib_rank inbox := outbox'))
                          (MIMPI_outboxes st)\<rparr>,
                   data')))"

subsection \<open>Direct communication\<close>

text \<open>\<^verbatim>\<open>_MIMPI_Send_Data\<close> (lines 535-551); \<open>data\<close> is \<open>None\<close> for the null pointer.\<close>

definition priv_MIMPI_Send_Data ::
  "world \<Rightarrow> prefix_t \<Rightarrow> uint8_t list option \<Rightarrow> size_t \<Rightarrow> c_int \<Rightarrow> MIMPI_Retcode \<times> world" where
  "priv_MIMPI_Send_Data st prefix' data data_count destination =
     (case chsend_all (MIMPI_writers st destination) (prefix_bytes prefix') sizeof_prefix_t of
        (r, ch) \<Rightarrow>
          let st1 = st\<lparr>MIMPI_writers := (MIMPI_writers st)(destination := ch)\<rparr>
          in if word_of_int r \<noteq> sizeof_prefix_t then (MIMPI_ERROR_REMOTE_FINISHED, st1)
             else (case data of
                     None \<Rightarrow> (MIMPI_SUCCESS, st1)
                   | Some bytes \<Rightarrow>
                       if data_count = 0 then (MIMPI_SUCCESS, st1)
                       else (case chsend_all ch bytes data_count of
                               (r2, ch2) \<Rightarrow>
                                 let st2 = st\<lparr>MIMPI_writers :=
                                                (MIMPI_writers st)(destination := ch2)\<rparr>
                                 in if word_of_int r2 \<noteq> data_count
                                    then (MIMPI_ERROR_REMOTE_FINISHED, st2)
                                    else (MIMPI_SUCCESS, st2))))"

text \<open>
  \<^verbatim>\<open>_MIMPI_Send\<close> (lines 553-580). The packet is cleared, so the bytes of \<open>prefix.data\<close>
  behind the copied ones are zero.
\<close>

definition priv_MIMPI_Send ::
  "world \<Rightarrow> uint8_t list \<Rightarrow> size_t \<Rightarrow> c_int \<Rightarrow> c_int \<Rightarrow> MIMPI_Retcode \<times> world" where
  "priv_MIMPI_Send st data count' destination tag =
     (if destination = MIMPI_World_rank st then (MIMPI_ERROR_ATTEMPTED_SELF_OP, st)
      else if destination <s 0 \<or> MIMPI_World_size st \<le>s destination
        then (MIMPI_ERROR_NO_SUCH_RANK, st)
      else
        let prefix_count = (if count' < MIMPI_PREFIX_SIZE then count' else MIMPI_PREFIX_SIZE);
            suffix_count = count' - prefix_count;
            prefix' = \<lparr>p_header = \<lparr>h_size = count', h_tag = tag\<rparr>,
                      p_data = memmove (replicate (unat MIMPI_PREFIX_SIZE) 0) data prefix_count\<rparr>
        in priv_MIMPI_Send_Data st prefix' (Some (drop (unat prefix_count) data)) suffix_count
             destination)"

text \<open>\<^verbatim>\<open>_MIMPI_Recv\<close> (lines 582-589).\<close>

definition priv_MIMPI_Recv ::
  "world \<Rightarrow> uint8_t list \<Rightarrow> size_t \<Rightarrow> c_int \<Rightarrow> c_int \<Rightarrow>
   MIMPI_Retcode outcome \<times> world \<times> uint8_t list" where
  "priv_MIMPI_Recv st data count' source tag = Inbox_Retrieve st source tag count' data"

text \<open>\<^verbatim>\<open>_MIMPI_Deadlock_Request\<close> (lines 593-613).\<close>

definition priv_MIMPI_Deadlock_Request ::
  "world \<Rightarrow> size_t \<Rightarrow> c_int \<Rightarrow> c_int \<Rightarrow> MIMPI_Retcode \<times> world" where
  "priv_MIMPI_Deadlock_Request st count' source tag =
     (if \<not> MIMPI_deadlock_detection st then (MIMPI_SUCCESS, st)
      else
        let header = \<lparr>h_size = count', h_tag = tag\<rparr>;
            prefix' = \<lparr>p_header = \<lparr>h_size = sizeof_header_t, h_tag = MIMPI_REQUEST_TAG\<rparr>,
                      p_data = memmove (replicate (unat MIMPI_PREFIX_SIZE) 0)
                                 (header_bytes header) sizeof_header_t\<rparr>
        in priv_MIMPI_Send_Data st prefix' None 0 source)"

text \<open>
  \<^verbatim>\<open>MIMPI_Send\<close> (lines 798-810) and \<^verbatim>\<open>MIMPI_Recv\<close> (lines 812-832). The parameter \<open>count\<close>
  is an \<^verbatim>\<open>int\<close>, converted to \<^verbatim>\<open>size_t\<close> where it is passed on.
\<close>

definition MIMPI_Send ::
  "world \<Rightarrow> uint8_t list \<Rightarrow> c_int \<Rightarrow> c_int \<Rightarrow> c_int \<Rightarrow> MIMPI_Retcode \<times> world" where
  "MIMPI_Send st data count' destination tag =
     (case priv_MIMPI_Send st data (scast count') destination tag of
        (retcode, st1) \<Rightarrow>
          (case MIMPI_outboxes st1 of
             None \<Rightarrow> (retcode, st1)
           | Some outboxes \<Rightarrow>
               if retcode = MIMPI_SUCCESS
               then (retcode,
                     st1\<lparr>MIMPI_outboxes :=
                           Some (outboxes(destination :=
                             Outbox_Push (outboxes destination) tag (scast count')))\<rparr>)
               else (retcode, st1)))"

definition MIMPI_Recv ::
  "world \<Rightarrow> uint8_t list \<Rightarrow> c_int \<Rightarrow> c_int \<Rightarrow> c_int \<Rightarrow>
   MIMPI_Retcode outcome \<times> world \<times> uint8_t list" where
  "MIMPI_Recv st data count' source tag =
     (if source = MIMPI_World_rank st then (Returns MIMPI_ERROR_ATTEMPTED_SELF_OP, st, data)
      else if source <s 0 \<or> MIMPI_World_size st \<le>s source
        then (Returns MIMPI_ERROR_NO_SUCH_RANK, st, data)
      else (case priv_MIMPI_Deadlock_Request st (scast count') source tag of
              (retcode, st1) \<Rightarrow>
                if retcode \<noteq> MIMPI_SUCCESS then (Returns retcode, st1, data)
                else priv_MIMPI_Recv st1 data (scast count') source tag))"

subsection \<open>Group communication\<close>

text \<open>
  Modelled from the spec: the values of the enumerators of \<^verbatim>\<open>MIMPI_Retcode\<close>, declared in
  \<^verbatim>\<open>mimpi.h\<close>, which is not among the sources. Section 6 of the specification lists the
  return codes as \<open>SUCCESS, ERROR_ATTEMPTED_SELF_OP, ERROR_NO_SUCH_RANK,
  ERROR_REMOTE_FINISHED, ERROR_DEADLOCK_DETECTED\<close>; a C enumeration numbers its enumerators
  from 0 and has the size of an \<^verbatim>\<open>int\<close>.
\<close>

definition sizeof_MIMPI_Retcode :: size_t where
  "sizeof_MIMPI_Retcode = 4"

fun Retcode_value :: "MIMPI_Retcode \<Rightarrow> c_int" where
  "Retcode_value MIMPI_SUCCESS = 0"
| "Retcode_value MIMPI_ERROR_ATTEMPTED_SELF_OP = 1"
| "Retcode_value MIMPI_ERROR_NO_SUCH_RANK = 2"
| "Retcode_value MIMPI_ERROR_REMOTE_FINISHED = 3"
| "Retcode_value MIMPI_ERROR_DEADLOCK_DETECTED = 4"
| "Retcode_value (MIMPI_Retcode_other v) = v"

definition Retcode_of_value :: "c_int \<Rightarrow> MIMPI_Retcode" where
  "Retcode_of_value v =
     (if v = 0 then MIMPI_SUCCESS
      else if v = 1 then MIMPI_ERROR_ATTEMPTED_SELF_OP
      else if v = 2 then MIMPI_ERROR_NO_SUCH_RANK
      else if v = 3 then MIMPI_ERROR_REMOTE_FINISHED
      else if v = 4 then MIMPI_ERROR_DEADLOCK_DETECTED
      else MIMPI_Retcode_other v)"

text \<open>
  The working buffer of a collective holds \<open>count\<close> bytes of payload and, behind them,
  a \<^verbatim>\<open>MIMPI_Retcode\<close>: \<open>status = (MIMPI_Retcode*)(data + count)\<close>. \<open>get_status\<close> reads
  \<open>*status\<close>, \<open>set_status\<close> assigns it. The memory \<^verbatim>\<open>malloc\<close> returns has no defined
  contents; the model fills it with zero bytes.
\<close>

definition malloc :: "size_t \<Rightarrow> uint8_t list" where
  "malloc size' = replicate (unat size') 0"

definition get_status :: "size_t \<Rightarrow> uint8_t list \<Rightarrow> MIMPI_Retcode" where
  "get_status count' data =
     Retcode_of_value (le_word (take (unat sizeof_MIMPI_Retcode) (drop (unat count') data)))"

definition set_status :: "size_t \<Rightarrow> uint8_t list \<Rightarrow> MIMPI_Retcode \<Rightarrow> uint8_t list" where
  "set_status count' data status =
     take (unat count') data @ le_bytes (unat sizeof_MIMPI_Retcode) (Retcode_value status)
       @ drop (unat count' + unat sizeof_MIMPI_Retcode) data"

text \<open>
  The loop over the children in \<^verbatim>\<open>_MIMPI_Collect\<close> (lines 640-652). The result is
  \<open>Blocks\<close> when a receive never returns and \<open>Undefined\<close> when it has no defined behaviour;
  otherwise it holds the state and the buffers \<open>data\<close> and \<open>child_data\<close> after the loop.
\<close>

fun Collect_children ::
  "world \<Rightarrow> c_int list \<Rightarrow> size_t \<Rightarrow> MIMPI_Op \<Rightarrow> uint8_t list \<Rightarrow> uint8_t list \<Rightarrow>
   unit outcome \<times> world \<times> uint8_t list \<times> uint8_t list" where
  "Collect_children st [] count' op data child_data = (Returns (), st, data, child_data)"
| "Collect_children st (child # children) count' op data child_data =
     (if child = - 1 then Collect_children st children count' op data child_data
      else
        (case priv_MIMPI_Recv st child_data (count' + sizeof_MIMPI_Retcode) child
                MIMPI_GROUP_TAG of
           (Blocks, st1, child_data1) \<Rightarrow> (Blocks, st1, data, child_data1)
         | (Undefined, st1, child_data1) \<Rightarrow> (Undefined, st1, data, child_data1)
         | (Returns retcode, st1, child_data1) \<Rightarrow>
             let data1 = set_status count' data
                           (priv_MIMPI_Update_Retcode (get_status count' data) retcode)
             in if retcode \<noteq> MIMPI_SUCCESS
                then Collect_children st1 children count' op data1 child_data1
                else
                  let data2 = set_status count' data1
                                (priv_MIMPI_Update_Retcode (get_status count' data1)
                                   (get_status count' child_data1));
                      data3 = priv_MIMPI_Reduce data2 child_data1 count' op
                  in Collect_children st1 children count' op data3 child_data1))"

text \<open>
  \<^verbatim>\<open>_MIMPI_Collect\<close> (lines 617-670). \<open>send_data\<close> and \<open>recv_data\<close> are \<open>None\<close> for the null
  pointer; the result holds the buffer \<open>recv_data\<close> points to after the call.
\<close>

definition priv_MIMPI_Collect ::
  "world \<Rightarrow> c_int \<Rightarrow> c_int list \<Rightarrow> uint8_t list option \<Rightarrow> uint8_t list option \<Rightarrow> size_t \<Rightarrow>
   MIMPI_Op \<Rightarrow> MIMPI_Retcode outcome \<times> world \<times> uint8_t list option" where
  "priv_MIMPI_Collect st parent children send_data recv_data count' op =
     (let size' = count' + sizeof_MIMPI_Retcode;
          data = malloc size';
          child_data = malloc size';
          data = (if count' \<noteq> 0
                  then memmove data (case send_data of None \<Rightarrow> [] | Some bytes \<Rightarrow> bytes) count'
                  else data);
          data = set_status count' data MIMPI_SUCCESS
      in case Collect_children st children count' op data child_data of
           (Blocks, st1, data1, child_data1) \<Rightarrow> (Blocks, st1, recv_data)
         | (Undefined, st1, data1, child_data1) \<Rightarrow> (Undefined, st1, recv_data)
         | (Returns u, st1, data1, child_data1) \<Rightarrow>
             let recv_data1 = (case recv_data of
                                 None \<Rightarrow> None
                               | Some bytes \<Rightarrow>
                                   if count' \<noteq> 0 then Some (memmove bytes data1 count')
                                   else Some bytes)
             in if parent \<noteq> - 1
                then (case priv_MIMPI_Send st1 data1 size' parent MIMPI_GROUP_TAG of
                        (retcode, st2) \<Rightarrow>
                          let data2 = set_status count' data1
                                        (priv_MIMPI_Update_Retcode (get_status count' data1)
                                           retcode)
                          in (Returns (get_status count' data2), st2, recv_data1))
                else (Returns (get_status count' data1), st1, recv_data1))"

text \<open>The loop over the children in \<^verbatim>\<open>_MIMPI_Distribute\<close> (lines 696-703).\<close>

fun Distribute_children ::
  "world \<Rightarrow> c_int list \<Rightarrow> size_t \<Rightarrow> uint8_t list \<Rightarrow> world \<times> uint8_t list" where
  "Distribute_children st [] count' data = (st, data)"
| "Distribute_children st (child # children) count' data =
     (if child = - 1 then Distribute_children st children count' data
      else
        (case priv_MIMPI_Send st data (count' + sizeof_MIMPI_Retcode) child MIMPI_GROUP_TAG of
           (retcode, st1) \<Rightarrow>
             Distribute_children st1 children count'
               (set_status count' data
                  (priv_MIMPI_Update_Retcode (get_status count' data) retcode))))"

text \<open>\<^verbatim>\<open>_MIMPI_Distribute\<close> (lines 672-713).\<close>

definition priv_MIMPI_Distribute ::
  "world \<Rightarrow> c_int \<Rightarrow> c_int list \<Rightarrow> uint8_t list option \<Rightarrow> size_t \<Rightarrow> MIMPI_Retcode \<Rightarrow>
   MIMPI_Retcode outcome \<times> world \<times> uint8_t list option" where
  "priv_MIMPI_Distribute st parent children recv_data count' initial_status =
     (let size' = count' + sizeof_MIMPI_Retcode;
          data = set_status count' (malloc size') initial_status;
          received =
            (if parent = - 1
             then (Returns (), st,
                   if count' \<noteq> 0
                   then memmove data (case recv_data of None \<Rightarrow> [] | Some bytes \<Rightarrow> bytes) count'
                   else data)
             else (case priv_MIMPI_Recv st data size' parent MIMPI_GROUP_TAG of
                     (Blocks, st1, data1) \<Rightarrow> (Blocks, st1, data1)
                   | (Undefined, st1, data1) \<Rightarrow> (Undefined, st1, data1)
                   | (Returns retcode, st1, data1) \<Rightarrow>
                       (Returns (), st1,
                        set_status count' data1
                          (priv_MIMPI_Update_Retcode (get_status count' data1) retcode))))
      in case received of
           (Blocks, st1, data1) \<Rightarrow> (Blocks, st1, recv_data)
         | (Undefined, st1, data1) \<Rightarrow> (Undefined, st1, recv_data)
         | (Returns u, st1, data1) \<Rightarrow>
             (case Distribute_children st1 children count' data1 of
                (st2, data2) \<Rightarrow>
                  (Returns (get_status count' data2), st2,
                   if parent \<noteq> - 1 \<and> get_status count' data2 = MIMPI_SUCCESS
                   then map_option (\<lambda>bytes. memmove bytes data2 count') recv_data
                   else recv_data)))"

subsection \<open>The collective operations\<close>

text \<open>
  \<^verbatim>\<open>MIMPI_Barrier\<close> (lines 834-844), \<^verbatim>\<open>MIMPI_Bcast\<close> (lines 846-855) and \<^verbatim>\<open>MIMPI_Reduce\<close>
  (lines 857-874). Each result holds the user's buffer after the call.
\<close>

definition MIMPI_Barrier :: "world \<Rightarrow> MIMPI_Retcode outcome \<times> world" where
  "MIMPI_Barrier st =
     (case priv_MIMPI_Get_Neighbours (MIMPI_World_rank st) 0 (MIMPI_World_size st) of
        (parent, children) \<Rightarrow>
          (case priv_MIMPI_Collect st parent children None None 0 MIMPI_NOOP of
             (Blocks, st1, r) \<Rightarrow> (Blocks, st1)
           | (Undefined, st1, r) \<Rightarrow> (Undefined, st1)
           | (Returns retcode, st1, r) \<Rightarrow>
               (case priv_MIMPI_Distribute st1 parent children None 0 retcode of
                  (result, st2, r2) \<Rightarrow> (result, st2))))"



subsection \<open>Notions used in the statements\<close>

text \<open>
  \<open>frame_bytes count tag data\<close> are the bytes \<^verbatim>\<open>_MIMPI_Send\<close> hands to the channel for a
  payload \<open>data\<close> of \<open>count\<close> bytes: the packet and, for a payload longer than the prefix,
  the tail. \<open>channel_append st destination bytes\<close> is the state \<open>st\<close> with \<open>bytes\<close> written
  to the channel to \<open>destination\<close>. \<open>valid_peer st r\<close> says that \<open>r\<close> is a rank of the world
  other than the own one.
\<close>

definition frame_bytes :: "size_t \<Rightarrow> c_int \<Rightarrow> uint8_t list \<Rightarrow> uint8_t list" where
  "frame_bytes count' tag data =
     (let prefix_count = (if count' < MIMPI_PREFIX_SIZE then count' else MIMPI_PREFIX_SIZE);
          suffix_count = count' - prefix_count
      in prefix_bytes \<lparr>p_header = \<lparr>h_size = count', h_tag = tag\<rparr>,
                       p_data = memmove (replicate (unat MIMPI_PREFIX_SIZE) 0) data prefix_count\<rparr>
         @ (if suffix_count = 0 then []
            else read_bytes (unat suffix_count) (drop (unat prefix_count) data)))"

definition channel_append :: "world \<Rightarrow> c_int \<Rightarrow> uint8_t list \<Rightarrow> world" where
  "channel_append st destination bytes =
     st\<lparr>MIMPI_writers := (MIMPI_writers st)
          (destination := (MIMPI_writers st destination)
             \<lparr>ch_bytes := ch_bytes (MIMPI_writers st destination) @ bytes\<rparr>)\<rparr>"

definition valid_peer :: "world \<Rightarrow> c_int \<Rightarrow> bool" where
  "valid_peer st r \<longleftrightarrow>
     r \<noteq> MIMPI_World_rank st \<and> 0 \<le>s r \<and> r <s MIMPI_World_size st"

text \<open>
  A sequence of calls of \<open>MIMPI_Send\<close> to one destination and a sequence of calls of
  \<open>MIMPI_Recv\<close> from one source, each call on the state the one before has left. A send
  is \<open>(data, count, tag)\<close>, a receive is \<open>(buffer, count, tag)\<close>.
\<close>

fun Send_sequence ::
  "world \<Rightarrow> c_int \<Rightarrow> (uint8_t list \<times> c_int \<times> c_int) list \<Rightarrow> MIMPI_Retcode list \<times> world" where
  "Send_sequence st destination [] = ([], st)"
| "Send_sequence st destination ((data, count', tag) # sends) =
     (case MIMPI_Send st data count' destination tag of
        (retcode, st1) \<Rightarrow>
          (case Send_sequence st1 destination sends of
             (retcodes, st2) \<Rightarrow> (retcode # retcodes, st2)))"

fun Recv_sequence ::
  "world \<Rightarrow> c_int \<Rightarrow> (uint8_t list \<times> c_int \<times> c_int) list \<Rightarrow>
   (MIMPI_Retcode outcome \<times> uint8_t list) list \<times> world" where
  "Recv_sequence st source [] = ([], st)"
| "Recv_sequence st source ((data, count', tag) # recvs) =
     (case MIMPI_Recv st data count' source tag of
        (retcode, st1, data1) \<Rightarrow>
          (case Recv_sequence st1 source recvs of
             (results, st2) \<Rightarrow> ((retcode, data1) # results, st2)))"


definition frame_of_send :: "uint8_t list \<times> c_int \<times> c_int \<Rightarrow> uint8_t list" where
  "frame_of_send = (\<lambda>(data, count', tag). frame_bytes (scast count') tag data)"







text \<open>
  A send of \<open>n\<close> bytes with tag 42 from rank 0 to rank 1 of a fresh world of 2 processes,
  and what \<^verbatim>\<open>_Receiver_Receive\<close> makes of the bytes written.
\<close>

definition round_trip_at :: "nat \<Rightarrow> bool" where
  "round_trip_at n =
     (let st = MIMPI_Init 0 2 (\<lambda>r. \<lparr>ch_open = True, ch_bytes = []\<rparr>) False;
          data = replicate n 7
      in valid_peer st 1 \<and> ch_open (MIMPI_writers st 1) \<and> length data = unat (of_nat n :: size_t)
         \<and> fst (priv_MIMPI_Send st data (of_nat n) 1 42) = MIMPI_SUCCESS
         \<and> (case priv_Receiver_Receive 0 0 []
               (drop (length (ch_bytes (MIMPI_writers st 1)))
                  (ch_bytes (MIMPI_writers (snd (priv_MIMPI_Send st data (of_nat n) 1 42)) 1))) of
              (ok, tag1, size1, data1, rest) \<Rightarrow>
                ok \<and> tag1 = 42 \<and> size1 = of_nat n \<and> take (unat size1) data1 = data \<and> rest = []))"

text \<open>The logical position of rank \<open>r\<close> when \<open>root\<close> is rotated to position 1.\<close>

definition tree_index :: "int \<Rightarrow> int \<Rightarrow> int \<Rightarrow> int" where
  "tree_index r root N = (N + r - root) mod N + 1"

text \<open>
  The return codes \<^verbatim>\<open>MIMPI_Retcode\<close> enumerates, as opposed to another value read from
  the bytes of a buffer.
\<close>

definition is_code :: "MIMPI_Retcode \<Rightarrow> bool" where
  "is_code c \<longleftrightarrow> c \<in> {MIMPI_SUCCESS, MIMPI_ERROR_ATTEMPTED_SELF_OP, MIMPI_ERROR_NO_SUCH_RANK,
     MIMPI_ERROR_REMOTE_FINISHED, MIMPI_ERROR_DEADLOCK_DETECTED}"

text \<open>
  The working buffer \<open>data\<close> of a collective that holds the payload \<open>payload\<close> and the status
  \<open>c\<close> behind it, and the entry the receiver thread saves in the block \<open>b\<close> for such a buffer
  of \<open>n\<close> payload bytes sent with \<open>MIMPI_GROUP_TAG\<close>. \<open>Reduce_bytes\<close> is \<^verbatim>\<open>_MIMPI_Reduce\<close> on two payloads of
  the same length. \<open>send_payload\<close> is what \<open>memcpy(data, send_data, count)\<close> copies;
  \<open>real_children\<close> are the entries of \<open>children\<close> the loops do not skip.
\<close>

definition status_buffer :: "uint8_t list \<Rightarrow> MIMPI_Retcode \<Rightarrow> uint8_t list" where
  "status_buffer payload c = payload @ le_bytes 4 (Retcode_value c)"

definition group_message ::
  "nat \<Rightarrow> size_t \<Rightarrow> uint8_t list \<Rightarrow> MIMPI_Retcode \<Rightarrow> Inbox_Message" where
  "group_message b n payload c =
     \<lparr>im_type = INBOX_MESSAGE, im_tag = MIMPI_GROUP_TAG, im_size = n + sizeof_MIMPI_Retcode,
      im_block = Block b, im_data = status_buffer payload c\<rparr>"

definition Reduce_bytes :: "MIMPI_Op \<Rightarrow> uint8_t list \<Rightarrow> uint8_t list \<Rightarrow> uint8_t list" where
  "Reduce_bytes op result other = map2 (Reduce_byte op) result other"

definition send_payload :: "uint8_t list option \<Rightarrow> uint8_t list" where
  "send_payload send_data = (case send_data of None \<Rightarrow> [] | Some bytes \<Rightarrow> bytes)"

definition real_children :: "c_int list \<Rightarrow> c_int list" where
  "real_children children = filter (\<lambda>c. c \<noteq> - 1) children"

text \<open>
  \<open>consume st source\<close> is \<open>st\<close> after the first entry of \<open>MIMPI_inboxes[source]\<close> was unlinked
  and deleted.
\<close>

definition consume :: "world \<Rightarrow> c_int \<Rightarrow> world" where
  "consume st source =
     st\<lparr>MIMPI_inboxes := (MIMPI_inboxes st)
          (source := (MIMPI_inboxes st source)
             \<lparr>ib_entries := tl (ib_entries (MIMPI_inboxes st source)),
              ib_heap := Option.bind (ib_heap (MIMPI_inboxes st source))
                (\<lambda>freed. priv_Inbox_Delete freed
                   (hd (ib_entries (MIMPI_inboxes st source))))\<rparr>)\<rparr>"

text \<open>
  \<open>outbox_of st r\<close> is \<open>MIMPI_outboxes[r]\<close>, empty when the outboxes are not allocated.
  \<open>group_frames fs\<close> are the bytes \<^verbatim>\<open>_MIMPI_Send\<close> writes for sends with the tag
  \<open>MIMPI_GROUP_TAG\<close>, one for each pair of a size and a buffer in \<open>fs\<close>.

  \<open>collective_effect st st'\<close> relates the state before a call to the state after it: rank,
  size and the detection flag are the same, every outbox after the call is a subsequence of
  the outbox before it (identical without deadlock detection), no channel is opened or
  closed, and what was written to a channel is a sequence of whole frames of
  \<^verbatim>\<open>_MIMPI_Send\<close> with the tag \<open>MIMPI_GROUP_TAG\<close> and nothing else.
\<close>

definition outbox_of :: "world \<Rightarrow> c_int \<Rightarrow> Outbox" where
  "outbox_of st r = (case MIMPI_outboxes st of None \<Rightarrow> [] | Some outboxes \<Rightarrow> outboxes r)"

definition group_frames :: "(size_t \<times> uint8_t list) list \<Rightarrow> uint8_t list" where
  "group_frames fs = concat (map (\<lambda>(n, data). frame_bytes n MIMPI_GROUP_TAG data) fs)"



text \<open>
  The precedence order of the specification, \<open>NO_SUCH_RANK > ATTEMPTED_SELF_OP >
  REMOTE_FINISHED > DEADLOCK_DETECTED > SUCCESS\<close>, as a rank: the greater number is the
  earlier code.
\<close>

definition spec_precedence :: "MIMPI_Retcode \<Rightarrow> nat" where
  "spec_precedence c =
     (if c = MIMPI_ERROR_NO_SUCH_RANK then 4
      else if c = MIMPI_ERROR_ATTEMPTED_SELF_OP then 3
      else if c = MIMPI_ERROR_REMOTE_FINISHED then 2
      else if c = MIMPI_ERROR_DEADLOCK_DETECTED then 1
      else 0)"

text \<open>
  A run of two processes with deadlock detection, on channels that are open and empty
  at the start. \<open>deliver st source stream\<close> is \<open>st\<close> after the receiver thread for \<open>source\<close>
  has read \<open>stream\<close> from its channel into the inbox \<open>MIMPI_Init\<close> has set up.

  Rank 0 calls \<open>MIMPI_Recv\<close> for four bytes with tag 5 from rank 1 and waits
  (\<open>status_root_waiting\<close>). Rank 1, whose receiver thread has read what rank 0 has
  written, calls \<open>MIMPI_Barrier\<close> (from \<open>status_leaf_entering\<close>) and then \<open>MIMPI_Send\<close> with
  four bytes and tag 5 to rank 0 (\<open>status_leaf_sent\<close>). The receiver thread of rank 0 reads
  what rank 1 has written (\<open>status_root_served\<close>), the receive of rank 0 goes on in
  \<^verbatim>\<open>_MIMPI_Recv\<close>, and rank 0 calls \<open>MIMPI_Barrier\<close> (from \<open>status_root_entering\<close>).
\<close>

definition fresh_channels :: "c_int \<Rightarrow> channel" where
  "fresh_channels = (\<lambda>r. \<lparr>ch_open = True, ch_bytes = []\<rparr>)"

definition deliver :: "world \<Rightarrow> c_int \<Rightarrow> uint8_t list \<Rightarrow> world" where
  "deliver st source stream =
     st\<lparr>MIMPI_inboxes := (MIMPI_inboxes st)
          (source := Receiver_Main_loop (Inbox_Init source) 0 0 Indeterminate [] stream)\<rparr>"

definition status_root_waiting :: world where
  "status_root_waiting = fst (snd (MIMPI_Recv (MIMPI_Init 0 2 fresh_channels True) [0, 0, 0, 0] 4 1 5))"

definition status_leaf_entering :: world where
  "status_leaf_entering =
     deliver (MIMPI_Init 1 2 fresh_channels True) 0 (ch_bytes (MIMPI_writers status_root_waiting 1))"

definition status_leaf_sent :: world where
  "status_leaf_sent = snd (MIMPI_Send (snd (MIMPI_Barrier status_leaf_entering)) [1, 2, 3, 4] 4 0 5)"

definition status_root_served :: world where
  "status_root_served = deliver status_root_waiting 1 (ch_bytes (MIMPI_writers status_leaf_sent 0))"

definition status_root_entering :: world where
  "status_root_entering = fst (snd (priv_MIMPI_Recv status_root_served [0, 0, 0, 0] 4 1 5))"

text \<open>
  The tree of a collective by logical positions: position 1 is the root, and the children
  of position \<open>i\<close> are \<open>2 i\<close> and \<open>2 i + 1\<close> as far as they do not exceed \<open>N\<close>, as
  \<^verbatim>\<open>_MIMPI_Get_Neighbours\<close> computes them. \<open>rank_at root N i\<close> is the rank at position \<open>i\<close>
  and \<open>rank_word\<close> that rank as an \<^verbatim>\<open>int\<close>. \<open>subtree k N i\<close> lists the positions of the subtree
  of \<open>i\<close> down to depth \<open>k\<close>, in the order in which \<^verbatim>\<open>_MIMPI_Collect\<close> folds them, and
  \<open>below N i\<close> are the positions up to \<open>N\<close> at some depth under \<open>i\<close>. \<open>tree_value k N S op i\<close>
  is the payload \<^verbatim>\<open>_MIMPI_Collect\<close> computes at position \<open>i\<close> when \<open>S j\<close> is the payload
  position \<open>j\<close> contributes: its own payload, reduced with the values of its children from
  left to right. \<open>tree_world N root\<close> bounds the world so that no 32-bit intermediate of
  \<^verbatim>\<open>_MIMPI_Get_Neighbours\<close> overflows.
\<close>

definition rank_at :: "int \<Rightarrow> int \<Rightarrow> int \<Rightarrow> int" where
  "rank_at root N i = (i - 1 + root) mod N"

definition rank_word :: "int \<Rightarrow> int \<Rightarrow> int \<Rightarrow> c_int" where
  "rank_word root N i = word_of_int (rank_at root N i)"






text \<open>
  \<open>ready N root n V st i\<close>: \<open>st\<close> is a state of the rank at position \<open>i\<close> with open, empty
  channels, in which the inbox of each child \<open>c\<close> holds exactly the message of a collective
  with the payload \<open>V c\<close> of \<open>n\<close> bytes and the status \<open>MIMPI_SUCCESS\<close>, in the first block
  of that inbox, and nothing has arrived from the parent.
\<close>

definition ready :: "int \<Rightarrow> int \<Rightarrow> size_t \<Rightarrow> (int \<Rightarrow> uint8_t list) \<Rightarrow> world \<Rightarrow> int \<Rightarrow> bool" where
  "ready N root n V st i \<longleftrightarrow>
     MIMPI_World_rank st = rank_word root N i
   \<and> MIMPI_World_size st = word_of_int N
   \<and> MIMPI_writers st = fresh_channels
   \<and> (\<forall>c \<in> set (filter (\<lambda>c. c \<le> N) [2 * i, 2 * i + 1]).
         ib_entries (MIMPI_inboxes st (rank_word root N c))
           = [group_message 0 n (V c) MIMPI_SUCCESS]
         \<and> ib_heap (MIMPI_inboxes st (rank_word root N c)) = Some {}
         \<and> length (V c) = unat n)
   \<and> (i \<noteq> 1 \<longrightarrow> ib_entries (MIMPI_inboxes st (rank_word root N (i div 2))) = []
          \<and> ib_heap (MIMPI_inboxes st (rank_word root N (i div 2))) = Some {})"









text \<open>
  A send of no bytes: rank 0 of a world of two processes without deadlock detection sends
  the byte 1 and then no bytes to rank 1, both with tag 5, and the receiver thread of
  rank 1 reads what it has written.
\<close>

definition empty_sends :: "(uint8_t list \<times> c_int \<times> c_int) list" where
  "empty_sends = [([1], 1, 5), ([], 0, 5)]"

definition empty_send_receiver :: world where
  "empty_send_receiver =
     deliver (MIMPI_Init 1 2 fresh_channels False) 0
       (ch_bytes (MIMPI_writers
          (snd (Send_sequence (MIMPI_Init 0 2 fresh_channels False) 1 empty_sends)) 1))"

section \<open>Properties\<close>

subsection \<open>32-bit arithmetic without overflow\<close>

lemma sint_c_int_of_int:
  "- (2 ^ 31) \<le> x \<Longrightarrow> x < 2 ^ 31 \<Longrightarrow> sint (word_of_int x :: c_int) = x"
  by (simp add: sint_sbintrunc' signed_take_bit_int_eq_self)

lemma c_mod_of_int:
  assumes "0 \<le> a" "a < 2 ^ 31" "0 < b" "b < 2 ^ 31"
  shows "c_mod (word_of_int a) (word_of_int b) = word_of_int (a mod b)"
  using assms by (simp add: c_mod_def sint_c_int_of_int smod_int_alt_def sgn_if abs_mod_less)

lemma c_div_of_int:
  assumes "0 \<le> a" "a < 2 ^ 31" "0 < b" "b < 2 ^ 31"
  shows "c_div (word_of_int a) (word_of_int b) = word_of_int (a div b)"
  using assms by (simp add: c_div_def sint_c_int_of_int signed_divide_int_def sgn_if)

lemma sless_of_int:
  assumes "- (2 ^ 31) \<le> a" "a < 2 ^ 31" "- (2 ^ 31) \<le> b" "b < 2 ^ 31"
  shows "(word_of_int a :: c_int) <s word_of_int b \<longleftrightarrow> a < b"
  using assms by (simp add: word_sless_alt sint_c_int_of_int)

lemma c_int_of_int_eq_iff:
  assumes "- (2 ^ 31) \<le> a" "a < 2 ^ 31" "- (2 ^ 31) \<le> b" "b < 2 ^ 31"
  shows "(word_of_int a :: c_int) = word_of_int b \<longleftrightarrow> a = b"
  using assms by (metis sint_c_int_of_int)

subsection \<open>The collective tree\<close>

lemma tree_index_range:
  assumes "0 < N"
  shows "1 \<le> tree_index r root N" "tree_index r root N \<le> N"
  unfolding tree_index_def
  using assms pos_mod_bound [of N "N + r - root"] pos_mod_sign [of N "N + r - root"]
  by linarith+

lemma Get_Neighbours_index:
  assumes "0 \<le> r" "r < N" "0 \<le> root" "root < N" "N < 2 ^ 30"
  shows "c_mod (word_of_int N + word_of_int r - word_of_int root) (word_of_int N) + 1
           = word_of_int (tree_index r root N)"
proof -
  have s: "word_of_int N + word_of_int r - word_of_int root = (word_of_int (N + r - root) :: c_int)"
    by simp
  have m: "c_mod (word_of_int (N + r - root)) (word_of_int N) = word_of_int ((N + r - root) mod N)"
    using assms by (intro c_mod_of_int) auto
  show ?thesis unfolding s m tree_index_def by simp
qed

lemma Get_Neighbours_child_of_int:
  assumes "1 \<le> i" "i \<le> N" "0 \<le> root" "root < N" "N < 2 ^ 30" "k = 0 \<or> k = 1"
  shows "Get_Neighbours_child (word_of_int i) (word_of_int root) (word_of_int N) (word_of_int k)
           = (if N < 2 * i + k then - 1 else word_of_int ((2 * i + k - 1 + root) mod N))"
proof -
  have c: "word_of_int i * MIMPI_CHILDREN + word_of_int k = (word_of_int (2 * i + k) :: c_int)"
    by (simp add: MIMPI_CHILDREN_def)
  have lt: "(word_of_int N :: c_int) <s word_of_int (2 * i + k) \<longleftrightarrow> N < 2 * i + k"
    using assms by (intro sless_of_int) auto
  have s: "word_of_int (2 * i + k) + word_of_int root - 1 = (word_of_int (2 * i + k - 1 + root) :: c_int)"
    by simp
  have m: "c_mod (word_of_int (2 * i + k - 1 + root)) (word_of_int N)
        = word_of_int ((2 * i + k - 1 + root) mod N)" if "\<not> N < 2 * i + k"
    using assms that by (intro c_mod_of_int) auto
  show ?thesis
    unfolding Get_Neighbours_child_def Let_def c lt s
  proof (cases "N < 2 * i + k")
    case True
    then show "(if N < 2 * i + k then - 1 else c_mod (word_of_int (2 * i + k - 1 + root)) (word_of_int N))
       = (if N < 2 * i + k then - 1 else word_of_int ((2 * i + k - 1 + root) mod N))"
      by (simp only: if_True)
  next
    case False
    then show "(if N < 2 * i + k then - 1 else c_mod (word_of_int (2 * i + k - 1 + root)) (word_of_int N))
       = (if N < 2 * i + k then - 1 else word_of_int ((2 * i + k - 1 + root) mod N))"
      using m [OF False] by (simp only: if_False)
  qed
qed

lemma Get_Neighbours_parent_of_int:
  assumes "2 \<le> i" "i \<le> N" "0 \<le> root" "root < N" "N < 2 ^ 30"
  shows "c_mod (c_div (word_of_int i) MIMPI_CHILDREN + word_of_int root - 1) (word_of_int N)
           = word_of_int ((i div 2 - 1 + root) mod N)"
proof -
  have d: "c_div (word_of_int i) MIMPI_CHILDREN = word_of_int (i div 2)"
    using assms c_div_of_int [of i 2] by (simp add: MIMPI_CHILDREN_def)
  have s: "word_of_int (i div 2) + word_of_int root - 1 = (word_of_int (i div 2 - 1 + root) :: c_int)"
    by simp
  have m: "c_mod (word_of_int (i div 2 - 1 + root)) (word_of_int N)
        = word_of_int ((i div 2 - 1 + root) mod N)"
    using assms by (intro c_mod_of_int) auto
  show ?thesis unfolding d s m ..
qed

lemma Get_Neighbours_tree_index:
  fixes r root N :: int
  assumes "0 \<le> r" "r < N" "0 \<le> root" "root < N" "N < 2 ^ 30"
  defines "i \<equiv> tree_index r root N"
  shows "priv_MIMPI_Get_Neighbours (word_of_int r) (word_of_int root) (word_of_int N) =
       (if i = 1 then - 1 else word_of_int ((i div 2 - 1 + root) mod N),
        [if N < 2 * i then - 1 else word_of_int ((2 * i - 1 + root) mod N),
         if N < 2 * i + 1 then - 1 else word_of_int ((2 * i + 1 - 1 + root) mod N)])"
proof -
  have N: "0 < N" using assms by simp
  have i: "1 \<le> i" "i \<le> N" using tree_index_range [OF N] by (simp_all add: i_def)
  have idx: "c_mod (word_of_int N + word_of_int r - word_of_int root) (word_of_int N) + 1
      = word_of_int i"
    using assms by (simp only: Get_Neighbours_index i_def)
  have one: "(word_of_int i :: c_int) = 1 \<longleftrightarrow> i = 1"
    using c_int_of_int_eq_iff [of i 1] i assms by simp
  have par: "c_mod (c_div (word_of_int i) MIMPI_CHILDREN + word_of_int root - 1) (word_of_int N)
           = word_of_int ((i div 2 - 1 + root) mod N)" if "i \<noteq> 1"
    using i assms that by (intro Get_Neighbours_parent_of_int) auto
  have c0: "Get_Neighbours_child (word_of_int i) (word_of_int root) (word_of_int N) 0
     = (if N < 2 * i then - 1 else word_of_int ((2 * i - 1 + root) mod N))"
    using Get_Neighbours_child_of_int [of i N root 0] i assms by simp
  have c1: "Get_Neighbours_child (word_of_int i) (word_of_int root) (word_of_int N) 1
     = (if N < 2 * i + 1 then - 1 else word_of_int ((2 * i + 1 - 1 + root) mod N))"
    using Get_Neighbours_child_of_int [of i N root 1] i assms by simp
  show ?thesis
  proof (cases "i = 1")
    case True
    then show ?thesis
      unfolding priv_MIMPI_Get_Neighbours_def Let_def idx one list.map c0 c1
      by (simp only: if_True refl simp_thms)
  next
    case False
    then show ?thesis
      unfolding priv_MIMPI_Get_Neighbours_def Let_def idx one list.map c0 c1
      using par [OF False] by (simp only: if_False)
  qed
qed

text \<open>
  C6. For a rank \<open>r\<close> and a root \<open>root\<close> of a world of \<open>N\<close> processes (\<open>0 \<le> r, root < N\<close>;
  \<open>N < 2 ^ 30\<close>, so that no 32-bit intermediate overflows), \<^verbatim>\<open>_MIMPI_Get_Neighbours\<close>
  computes the logical position \<open>i = ((N + r - root) mod N) + 1\<close>; the parent is \<open>-1\<close> (none)
  at position 1 and rank \<open>(i div 2 - 1 + root) mod N\<close> otherwise; the two children are the
  positions \<open>2 i\<close> and \<open>2 i + 1\<close>, each \<open>-1\<close> (ignored) when it exceeds \<open>N\<close> and rank
  \<open>(child - 1 + root) mod N\<close> otherwise.
\<close>

theorem Get_Neighbours_formula:
  fixes r root N :: int
  assumes "0 \<le> r" "r < N" "0 \<le> root" "root < N" "N < 2 ^ 30"
  shows "priv_MIMPI_Get_Neighbours (word_of_int r) (word_of_int root) (word_of_int N) =
     (let i = (N + r - root) mod N + 1 in
       (if i = 1 then - 1 else word_of_int ((i div 2 - 1 + root) mod N),
        [if N < 2 * i then - 1 else word_of_int ((2 * i - 1 + root) mod N),
         if N < 2 * i + 1 then - 1 else word_of_int ((2 * i + 1 - 1 + root) mod N)]))"
  using Get_Neighbours_tree_index [OF assms] unfolding Let_def tree_index_def .

theorem Get_Neighbours_formula_witness:
  "priv_MIMPI_Get_Neighbours 3 2 7 = (2, [5, 6])
   \<and> priv_MIMPI_Get_Neighbours 2 2 7 = (- 1, [3, 4])
   \<and> priv_MIMPI_Get_Neighbours 6 2 7 = (3, [- 1, - 1])"
  using Get_Neighbours_formula [of 3 7 2] Get_Neighbours_formula [of 2 7 2]
    Get_Neighbours_formula [of 6 7 2]
  by (simp add: Let_def)

subsection \<open>The matching rule\<close>

lemma priv_MIMPI_Match_iff:
  "priv_MIMPI_Match expected_size expected_tag size' tag
     \<longleftrightarrow> expected_size = size' \<and> (expected_tag = 0 \<or> tag = 0 \<or> expected_tag = tag)"
  by (simp add: priv_MIMPI_Match_def)

lemma priv_Inbox_Match_iff:
  "priv_Inbox_Match message tag size'
     \<longleftrightarrow> im_size message = size' \<and>
         (im_tag message = MIMPI_ANY_TAG \<or> tag = MIMPI_ANY_TAG \<or> im_tag message = tag)"
  by (simp add: priv_Inbox_Match_def)

text \<open>
  C3, as the source has it. Both predicates hold exactly when the sizes are equal and
  either tag is the wildcard (0 in \<^verbatim>\<open>_MIMPI_Match\<close>, \<open>MIMPI_ANY_TAG\<close> in \<^verbatim>\<open>_Inbox_Match\<close>)
  or the tags are equal. Hence a receive with the wildcard tag matches every message of
  the requested size, and a receive with an explicit tag matches a message of the
  requested size exactly when the message carries the same tag or the wildcard tag.
\<close>

theorem matching_rule:
  "(priv_MIMPI_Match expected_size expected_tag size' tag
      \<longleftrightarrow> expected_size = size' \<and> (expected_tag = 0 \<or> tag = 0 \<or> expected_tag = tag))
   \<and> (priv_Inbox_Match message rtag rsize
      \<longleftrightarrow> im_size message = rsize \<and>
          (im_tag message = MIMPI_ANY_TAG \<or> rtag = MIMPI_ANY_TAG \<or> im_tag message = rtag))
   \<and> (priv_Inbox_Match message MIMPI_ANY_TAG rsize \<longleftrightarrow> im_size message = rsize)
   \<and> (priv_Inbox_Match (message\<lparr>im_tag := MIMPI_ANY_TAG\<rparr>) rtag rsize
      \<longleftrightarrow> im_size message = rsize)"
  by (simp add: priv_MIMPI_Match_def priv_Inbox_Match_def)

text \<open>
  The claim's last part as it is written fails: a receive with the explicit tag 7 matches
  a message whose tag is not 7, namely one sent with the wildcard tag.
\<close>

theorem explicit_tag_matches_wildcard_message_counterexample:
  "\<not> (\<forall>message rtag rsize.
        rtag \<noteq> MIMPI_ANY_TAG \<longrightarrow> priv_Inbox_Match message rtag rsize \<longrightarrow> im_tag message = rtag)"
proof
  assume a: "\<forall>message rtag rsize.
        rtag \<noteq> MIMPI_ANY_TAG \<longrightarrow> priv_Inbox_Match message rtag rsize \<longrightarrow> im_tag message = rtag"
  let ?m = "\<lparr>im_type = INBOX_MESSAGE, im_tag = 0, im_size = 4, im_block = Block 0,
    im_data = [1, 2, 3, 4]\<rparr>"
  have "priv_Inbox_Match ?m 7 4" "(7 :: c_int) \<noteq> MIMPI_ANY_TAG"
    by (simp_all add: priv_Inbox_Match_def MIMPI_ANY_TAG_def)
  with a have "im_tag ?m = 7" by blast
  then show False by simp
qed

subsection \<open>Requests and the outbox\<close>

lemma Outbox_Pop_found_iff:
  "fst (Outbox_Pop outbox tag size') \<longleftrightarrow>
     (\<exists>m \<in> set outbox. priv_MIMPI_Match size' tag (om_size m) (om_tag m))"
  by (induction outbox) (auto split: prod.splits)

lemma Outbox_Pop_not_found:
  "\<not> fst (Outbox_Pop outbox tag size') \<Longrightarrow> snd (Outbox_Pop outbox tag size') = outbox"
  by (induction outbox) (auto split: prod.splits if_splits)

text \<open>
  C2, at a failing input. Deadlock detection is enabled, the outbox for the peer holds the
  entry of a send with tag 5 and 4 bytes, and the first entry of the inbox is the peer's
  request for 4 bytes with tag 5. The entry matches the request under the matching rule
  (second conjunct), yet \<^verbatim>\<open>Inbox_Retrieve\<close> returns \<open>MIMPI_ERROR_DEADLOCK_DETECTED\<close> and
  leaves the entry in the outbox: it hands the size to \<open>Outbox_Pop\<close> as the tag and the tag
  as the size.
\<close>

theorem Retrieve_request_swaps_size_and_tag:
  "Inbox_Retrieve_loop True tag size' data []
      [\<lparr>om_tag = 5, om_size = 4\<rparr>] freed
      [\<lparr>im_type = INBOX_REQUEST, im_tag = 5, im_size = 4, im_block = NULL, im_data = []\<rparr>]
     = (Returns MIMPI_ERROR_DEADLOCK_DETECTED, [], [\<lparr>om_tag = 5, om_size = 4\<rparr>], freed, data)
   \<and> priv_MIMPI_Match 4 5 (om_size \<lparr>om_tag = 5, om_size = 4\<rparr>)
        (om_tag \<lparr>om_tag = 5, om_size = 4\<rparr>)"
  by (simp add: priv_MIMPI_Match_def priv_Inbox_Delete_def)

subsection \<open>Operations on the own rank and on ranks outside the world\<close>

text \<open>
  C8. In a world whose own rank is one of its ranks, \<open>MIMPI_Send\<close> (and \<^verbatim>\<open>_MIMPI_Send\<close>) to
  the own rank and \<open>MIMPI_Recv\<close> from the own rank return \<open>MIMPI_ERROR_ATTEMPTED_SELF_OP\<close>,
  and with a rank \<open>x\<close> outside \<open>[0, MIMPI_World_size)\<close> they return
  \<open>MIMPI_ERROR_NO_SUCH_RANK\<close>, for every buffer, count and tag. The state after the call is
  the state before it: no channel, outbox or inbox has changed, and neither has the
  buffer of the receive.
\<close>

theorem self_and_no_such_rank:
  assumes "0 \<le>s MIMPI_World_rank st" "MIMPI_World_rank st <s MIMPI_World_size st"
    and "x <s 0 \<or> MIMPI_World_size st \<le>s x"
  shows "priv_MIMPI_Send st data n (MIMPI_World_rank st) tag = (MIMPI_ERROR_ATTEMPTED_SELF_OP, st)
    \<and> MIMPI_Send st data count' (MIMPI_World_rank st) tag = (MIMPI_ERROR_ATTEMPTED_SELF_OP, st)
    \<and> MIMPI_Recv st data count' (MIMPI_World_rank st) tag
           = (Returns MIMPI_ERROR_ATTEMPTED_SELF_OP, st, data)
    \<and> priv_MIMPI_Send st data n x tag = (MIMPI_ERROR_NO_SUCH_RANK, st)
    \<and> MIMPI_Send st data count' x tag = (MIMPI_ERROR_NO_SUCH_RANK, st)
    \<and> MIMPI_Recv st data count' x tag = (Returns MIMPI_ERROR_NO_SUCH_RANK, st, data)"
proof -
  have ne: "x \<noteq> MIMPI_World_rank st"
    using assms by (auto simp: word_sless_alt word_sle_eq)
  have 1: "priv_MIMPI_Send st data n (MIMPI_World_rank st) tag = (MIMPI_ERROR_ATTEMPTED_SELF_OP, st)"
    by (simp add: priv_MIMPI_Send_def)
  have 2: "MIMPI_Send st data count' (MIMPI_World_rank st) tag = (MIMPI_ERROR_ATTEMPTED_SELF_OP, st)"
    by (simp add: MIMPI_Send_def priv_MIMPI_Send_def split: option.splits)
  have 3: "MIMPI_Recv st data count' (MIMPI_World_rank st) tag
           = (Returns MIMPI_ERROR_ATTEMPTED_SELF_OP, st, data)"
    by (simp add: MIMPI_Recv_def)
  have 4: "priv_MIMPI_Send st data n x tag = (MIMPI_ERROR_NO_SUCH_RANK, st)"
    using ne assms(3) by (simp add: priv_MIMPI_Send_def)
  have 5: "MIMPI_Send st data count' x tag = (MIMPI_ERROR_NO_SUCH_RANK, st)"
    using ne assms(3) by (simp add: MIMPI_Send_def priv_MIMPI_Send_def split: option.splits)
  have 6: "MIMPI_Recv st data count' x tag = (Returns MIMPI_ERROR_NO_SUCH_RANK, st, data)"
    using ne assms(3) by (simp add: MIMPI_Recv_def)
  from 1 2 3 4 5 6 show ?thesis by simp
qed

text \<open>
  The theorem at rank 1 of a world of 3 processes with deadlock detection enabled, with
  the rank 3 and the rank \<open>-1\<close> outside the world.
\<close>

theorem self_and_no_such_rank_witness:
  "(let st = MIMPI_Init 1 3 (\<lambda>r. \<lparr>ch_open = True, ch_bytes = []\<rparr>) True
    in MIMPI_Send st [1, 2] 2 1 7 = (MIMPI_ERROR_ATTEMPTED_SELF_OP, st)
     \<and> MIMPI_Recv st [0, 0] 2 1 7 = (Returns MIMPI_ERROR_ATTEMPTED_SELF_OP, st, [0, 0])
     \<and> MIMPI_Send st [1, 2] 2 3 7 = (MIMPI_ERROR_NO_SUCH_RANK, st)
     \<and> MIMPI_Recv st [0, 0] 2 3 7 = (Returns MIMPI_ERROR_NO_SUCH_RANK, st, [0, 0])
     \<and> MIMPI_Send st [1, 2] 2 (- 1) 7 = (MIMPI_ERROR_NO_SUCH_RANK, st)
     \<and> MIMPI_Recv st [0, 0] 2 (- 1) 7 = (Returns MIMPI_ERROR_NO_SUCH_RANK, st, [0, 0]))"
proof -
  let ?st = "MIMPI_Init 1 3 (\<lambda>r. \<lparr>ch_open = True, ch_bytes = []\<rparr>) True"
  have r: "MIMPI_World_rank ?st = 1" and s: "MIMPI_World_size ?st = 3"
    by (simp_all add: MIMPI_Init_def)
  have h: "0 \<le>s MIMPI_World_rank ?st" "MIMPI_World_rank ?st <s MIMPI_World_size ?st"
    unfolding r s by (simp_all add: word_sle_eq word_sless_alt)
  have a: "(3 :: c_int) <s 0 \<or> MIMPI_World_size ?st \<le>s 3"
    and b: "(- 1 :: c_int) <s 0 \<or> MIMPI_World_size ?st \<le>s - 1"
    unfolding s by (simp_all add: word_sle_eq word_sless_alt)
  show ?thesis
    using self_and_no_such_rank [OF h a, where data = "[1, 2]" and count' = 2 and tag = 7]
      self_and_no_such_rank [OF h a, where data = "[0, 0]" and count' = 2 and tag = 7]
      self_and_no_such_rank [OF h b, where data = "[1, 2]" and count' = 2 and tag = 7]
      self_and_no_such_rank [OF h b, where data = "[0, 0]" and count' = 2 and tag = 7]
    unfolding Let_def r by simp
qed

subsection \<open>The walk of a retrieve\<close>

lemma stays_linked_simps:
  "im_type m = INBOX_CLOSE \<Longrightarrow> stays_linked dd tag size' m"
  "im_type m = INBOX_REQUEST \<Longrightarrow> stays_linked dd tag size' m = (\<not> dd)"
  "im_type m = INBOX_DEADLOCK \<Longrightarrow> stays_linked dd tag size' m = (\<not> dd)"
  "im_type m = INBOX_MESSAGE \<Longrightarrow> priv_Inbox_Match m tag size' \<Longrightarrow> \<not> stays_linked dd tag size' m"
  "im_type m \<noteq> INBOX_REQUEST \<Longrightarrow> im_type m \<noteq> INBOX_DEADLOCK \<Longrightarrow>
     \<not> (im_type m = INBOX_MESSAGE \<and> priv_Inbox_Match m tag size') \<Longrightarrow> stays_linked dd tag size' m"
  by (auto simp: stays_linked_def)

lemma visits_prefix:
  "prefix (Inbox_Retrieve_visits dd tag size' outbox freed entries) entries"
proof (induction entries arbitrary: outbox freed)
  case Nil
  then show ?case by simp
next
  case (Cons m es)
  show ?case
    using Cons.IH by (auto split: option.splits prod.splits bool.splits)
qed

lemma visits_start:
  "take 1 (Inbox_Retrieve_visits dd tag size' outbox freed entries) = take 1 entries"
  by (cases entries) simp_all

lemma loop_keeps_passed:
  "Inbox_Retrieve_loop dd tag size' data passed outbox freed entries
     = (r, entries', outbox', freed', data')
   \<Longrightarrow> entries' = passed @ filter (stays_linked dd tag size')
                 (Inbox_Retrieve_visits dd tag size' outbox freed entries)
               @ drop (length (Inbox_Retrieve_visits dd tag size' outbox freed entries)) entries"
proof (induction entries arbitrary: passed outbox freed)
  case Nil
  then show ?case by simp
next
  case (Cons m es)
  let ?v = "\<lambda>p ob fr. Inbox_Retrieve_visits dd tag size' ob fr es"
  let ?tail = "\<lambda>ob fr. filter (stays_linked dd tag size') (Inbox_Retrieve_visits dd tag size' ob fr es)
     @ drop (length (Inbox_Retrieve_visits dd tag size' ob fr es)) es"
  consider (close) "im_type m = INBOX_CLOSE"
    | (marker) "im_type m = INBOX_REQUEST \<or> im_type m = INBOX_DEADLOCK"
    | (match) "im_type m = INBOX_MESSAGE" "priv_Inbox_Match m tag size'"
    | (other) "im_type m \<noteq> INBOX_CLOSE" "im_type m \<noteq> INBOX_REQUEST"
        "im_type m \<noteq> INBOX_DEADLOCK" "\<not> (im_type m = INBOX_MESSAGE \<and> priv_Inbox_Match m tag size')"
    by (cases "im_type m") auto
  then show ?case
  proof cases
    case close
    then show ?thesis using Cons.prems by (simp add: stays_linked_simps)
  next
    case marker
    show ?thesis
    proof (cases dd)
      case False
      have "entries' = (passed @ [m]) @ ?tail outbox freed"
        using Cons.prems marker False by (intro Cons.IH) auto
      then show ?thesis using marker False by (auto simp: stays_linked_simps)
    next
      case True
      show ?thesis
      proof (cases "priv_Inbox_Delete freed m")
        case None
        then show ?thesis using Cons.prems marker True by (auto simp: stays_linked_simps)
      next
        case (Some fr)
        obtain found ob where pop:
          "Outbox_Pop outbox (ucast (im_size m)) (scast (im_tag m)) = (found, ob)"
          by (cases "Outbox_Pop outbox (ucast (im_size m)) (scast (im_tag m))")
        show ?thesis
        proof (cases "im_type m = INBOX_REQUEST \<and> \<not> found")
          case True
          then show ?thesis
            using Cons.prems \<open>dd\<close> Some pop by (auto simp: stays_linked_simps)
        next
          case False
          have "\<exists>ob'. Inbox_Retrieve_loop dd tag size' data passed ob' fr es
                  = (r, entries', outbox', freed', data')
                \<and> Inbox_Retrieve_visits dd tag size' outbox freed (m # es)
                  = m # Inbox_Retrieve_visits dd tag size' ob' fr es"
            using Cons.prems marker \<open>dd\<close> Some pop False by (cases found) auto
          then obtain ob' where l: "Inbox_Retrieve_loop dd tag size' data passed ob' fr es
                  = (r, entries', outbox', freed', data')"
            and v: "Inbox_Retrieve_visits dd tag size' outbox freed (m # es)
                  = m # Inbox_Retrieve_visits dd tag size' ob' fr es" by blast
          have "entries' = passed @ ?tail ob' fr" using l by (rule Cons.IH)
          then show ?thesis
            unfolding v using marker \<open>dd\<close> by (auto simp: stays_linked_simps)
        qed
      qed
    qed
  next
    case match
    then show ?thesis
      using Cons.prems by (auto simp: stays_linked_simps split: if_splits option.splits)
  next
    case other
    have "entries' = (passed @ [m]) @ ?tail outbox freed"
      using Cons.prems other by (intro Cons.IH) simp
    then show ?thesis using other by (auto simp: stays_linked_simps)
  qed
qed

text \<open>
  C9, as the source has it. One call walks strictly forward: the nodes it inspects are a
  prefix of the list of entries, each inspected once, in list order. Every call starts
  at \<open>inbox->front\<close> again: its first inspected node is the first entry. The entries left
  by a call are the inspected nodes that stay linked, in their order, followed by the
  nodes the call did not reach; so a node that a call has passed over is the first thing
  a later call inspects.
\<close>

theorem retrieve_walk:
  "prefix (Inbox_Retrieve_visits dd tag size' outbox freed entries) entries
   \<and> take 1 (Inbox_Retrieve_visits dd tag size' outbox freed entries) = take 1 entries
   \<and> fst (snd (Inbox_Retrieve_loop dd tag size' data [] outbox freed entries))
       = filter (stays_linked dd tag size')
           (Inbox_Retrieve_visits dd tag size' outbox freed entries)
         @ drop (length (Inbox_Retrieve_visits dd tag size' outbox freed entries)) entries"
proof -
  obtain r entries' outbox' freed' data' where
    l: "Inbox_Retrieve_loop dd tag size' data [] outbox freed entries
          = (r, entries', outbox', freed', data')"
    by (metis prod_cases5)
  show ?thesis
    using visits_prefix [of dd tag size' outbox freed entries]
      visits_start [of dd tag size' outbox freed entries] loop_keeps_passed [OF l]
    by (simp add: l)
qed

text \<open>
  The claim as it is written fails. The inbox holds a message with tag 1 and then a
  message with tag 2. A retrieve for tag 2 inspects and passes over the first message
  and consumes the second; a later retrieve for tag 1 inspects the first message again
  (and returns it).
\<close>

theorem later_retrieve_revisits_counterexample:
  "Inbox_Retrieve_visits False 2 1 [] {}
      [\<lparr>im_type = INBOX_MESSAGE, im_tag = 1, im_size = 1, im_block = Block 0, im_data = [10]\<rparr>,
       \<lparr>im_type = INBOX_MESSAGE, im_tag = 2, im_size = 1, im_block = Block 1, im_data = [20]\<rparr>]
     = [\<lparr>im_type = INBOX_MESSAGE, im_tag = 1, im_size = 1, im_block = Block 0, im_data = [10]\<rparr>,
        \<lparr>im_type = INBOX_MESSAGE, im_tag = 2, im_size = 1, im_block = Block 1, im_data = [20]\<rparr>]
   \<and> Inbox_Retrieve_loop False 2 1 [0] [] [] {}
      [\<lparr>im_type = INBOX_MESSAGE, im_tag = 1, im_size = 1, im_block = Block 0, im_data = [10]\<rparr>,
       \<lparr>im_type = INBOX_MESSAGE, im_tag = 2, im_size = 1, im_block = Block 1, im_data = [20]\<rparr>]
     = (Returns MIMPI_SUCCESS,
        [\<lparr>im_type = INBOX_MESSAGE, im_tag = 1, im_size = 1, im_block = Block 0, im_data = [10]\<rparr>],
        [], {1}, [20])
   \<and> Inbox_Retrieve_visits False 1 1 [] {1}
      [\<lparr>im_type = INBOX_MESSAGE, im_tag = 1, im_size = 1, im_block = Block 0, im_data = [10]\<rparr>]
     = [\<lparr>im_type = INBOX_MESSAGE, im_tag = 1, im_size = 1, im_block = Block 0, im_data = [10]\<rparr>]
   \<and> Inbox_Retrieve_loop False 1 1 [0] [] [] {1}
      [\<lparr>im_type = INBOX_MESSAGE, im_tag = 1, im_size = 1, im_block = Block 0, im_data = [10]\<rparr>]
     = (Returns MIMPI_SUCCESS, [], [], {0, 1}, [10])"
  by (simp add: priv_Inbox_Match_def MIMPI_ANY_TAG_def memmove_def read_bytes_def
      priv_Inbox_Delete_def free_def readable_def insert_commute)

subsection \<open>Framing\<close>

lemma length_le_bytes [simp]: "length (le_bytes n w) = n"
  by (induction n arbitrary: w) auto

lemma le_step:
  "ucast (ucast w :: uint8_t) OR push_bit 8 (take_bit (8 * n) (drop_bit 8 w))
     = take_bit (8 + 8 * n) (w :: 'a::len word)"
  by (rule bit_word_eqI) (auto simp: bit_simps)

lemma le_word_le_bytes: "le_word (le_bytes n w) = take_bit (8 * n) w"
proof (induction n arbitrary: w)
  case 0
  then show ?case by simp
next
  case (Suc n)
  show ?case using le_step [of w n] by (simp add: Suc)
qed

lemma le_word_le_bytes_size_t: "le_word (le_bytes 8 (w :: size_t)) = w"
  by (simp add: le_word_le_bytes take_bit_word_eq_self)

lemma le_word_le_bytes_c_int: "le_word (le_bytes 4 (w :: c_int)) = w"
  by (simp add: le_word_le_bytes take_bit_word_eq_self)

lemma length_read_bytes [simp]: "length (read_bytes n src) = n"
  by (simp add: read_bytes_def)

lemma read_bytes_exact [simp]: "length src = n \<Longrightarrow> read_bytes n src = src"
  by (simp add: read_bytes_def)

lemma read_bytes_append_long [simp]:
  "n \<le> length xs \<Longrightarrow> read_bytes n (xs @ ys) = take n xs"
  by (simp add: read_bytes_def)

lemma read_bytes_split:
  "read_bytes (m + n) src = read_bytes m src @ read_bytes n (drop m src)"
  by (cases "m \<le> length src") (auto simp: read_bytes_def take_add replicate_add [symmetric]
      simp del: replicate_add)

lemma length_header_bytes [simp]: "length (header_bytes h) = 16"
  by (simp add: header_bytes_def)

lemma header_of_bytes_header_bytes [simp]: "header_of_bytes (header_bytes h) = h"
  by (simp add: header_of_bytes_def header_bytes_def le_word_le_bytes_size_t
      le_word_le_bytes_c_int)

lemma PREFIX_SIZE [simp]: "MIMPI_PREFIX_SIZE = 496" "unat MIMPI_PREFIX_SIZE = 496"
  by (simp_all add: MIMPI_PREFIX_SIZE_def MIMPI_PACKET_SIZE_def sizeof_header_t_def)

lemma sizeof_prefix [simp]: "sizeof_prefix_t = 512" "unat sizeof_prefix_t = 512"
  by (simp_all add: sizeof_prefix_t_def MIMPI_PACKET_SIZE_def)

lemma length_prefix_bytes [simp]: "length (prefix_bytes p) = 512"
  by (simp add: prefix_bytes_def)

lemma prefix_of_bytes_prefix_bytes:
  "prefix_of_bytes (prefix_bytes p) = \<lparr>p_header = p_header p, p_data = read_bytes 496 (p_data p)\<rparr>"
  by (simp add: prefix_of_bytes_def prefix_bytes_def)

lemma memmove_prefix_data:
  "unat c \<le> 496 \<Longrightarrow>
     read_bytes (unat c) (read_bytes 496 (memmove (replicate 496 0) data c))
       = read_bytes (unat c) data"
  by (simp add: memmove_def)

lemma frame_bytes_small:
  assumes "count' \<le> 496"
  shows "frame_bytes count' tag data =
           prefix_bytes \<lparr>p_header = \<lparr>h_size = count', h_tag = tag\<rparr>,
                          p_data = memmove (replicate 496 0) data count'\<rparr>"
proof (cases "count' < 496")
  case True
  then show ?thesis by (simp add: frame_bytes_def)
next
  case False
  with assms have "count' = 496" by simp
  then show ?thesis by (simp add: frame_bytes_def)
qed

lemma frame_bytes_large:
  assumes "496 < count'"
  shows "frame_bytes count' tag data =
           prefix_bytes \<lparr>p_header = \<lparr>h_size = count', h_tag = tag\<rparr>,
                          p_data = memmove (replicate 496 0) data 496\<rparr>
           @ read_bytes (unat (count' - 496)) (drop 496 data)"
proof -
  have "\<not> count' < 496" "count' - 496 \<noteq> 0" using assms by (auto simp: word_less_def)
  then show ?thesis by (simp add: frame_bytes_def)
qed

lemma Receiver_Receive_frame:
  "priv_Receiver_Receive tag0 size0 data0 (frame_bytes count' tag data @ rest)
     = (True, tag, count', if count' = 0 then data0 else read_bytes (unat count') data, rest)"
proof (cases "count' \<le> 496")
  case True
  then have n: "unat count' \<le> 496" by (simp add: word_le_nat_alt)
  have rd: "read_bytes (unat count') (read_bytes 496 (memmove (replicate 496 0) data count'))
      = read_bytes (unat count') data"
    using memmove_prefix_data [OF n, of data] .
  have gt: "\<not> 496 < count'" using True by simp
  show ?thesis
    using True gt
    by (simp add: priv_Receiver_Receive_def frame_bytes_small chrecv_all_def
        prefix_of_bytes_prefix_bytes Let_def rd)
next
  case False
  then have gt: "496 < count'" by simp
  then have u: "unat count' = 496 + unat (count' - 496)"
    by (simp add: unat_sub word_less_nat_alt word_le_nat_alt)
  have nz: "count' \<noteq> 0" "count' - 496 \<noteq> 0" using gt by (auto simp: word_less_def)
  have rd: "read_bytes 496 (read_bytes 496 (memmove (replicate 496 0) data 496))
      = read_bytes 496 data"
    using memmove_prefix_data [of 496 data] by simp
  have pos: "\<not> uint (count' - 496) \<le> 0"
    using nz(2) by (simp add: word_le_def uint_0_iff)
  show ?thesis
    using False gt nz pos
    by (simp add: priv_Receiver_Receive_def frame_bytes_large chrecv_all_def
        prefix_of_bytes_prefix_bytes Let_def rd u [symmetric]
        read_bytes_split [of 496 "unat (count' - 496)" data, symmetric])
qed

lemma Send_Data_open:
  assumes "ch_open (MIMPI_writers st destination)"
  shows "priv_MIMPI_Send_Data st p (Some bytes) n destination =
     (MIMPI_SUCCESS, channel_append st destination
        (prefix_bytes p @ (if n = 0 then [] else read_bytes (unat n) bytes)))"
  using assms
  by (simp add: priv_MIMPI_Send_Data_def chsend_all_def channel_append_def Let_def)

lemma Send_Data_open_None:
  assumes "ch_open (MIMPI_writers st destination)"
  shows "priv_MIMPI_Send_Data st p None n destination =
     (MIMPI_SUCCESS, channel_append st destination (prefix_bytes p))"
  using assms
  by (simp add: priv_MIMPI_Send_Data_def chsend_all_def channel_append_def Let_def)


lemma valid_peer_range:
  "valid_peer st r \<Longrightarrow> \<not> (r <s 0 \<or> MIMPI_World_size st \<le>s r)"
  by (auto simp: valid_peer_def word_sless_alt word_sle_eq)

lemma priv_MIMPI_Send_open:
  assumes "valid_peer st destination" "ch_open (MIMPI_writers st destination)"
  shows "priv_MIMPI_Send st data count' destination tag =
     (MIMPI_SUCCESS, channel_append st destination (frame_bytes count' tag data))"
  using assms valid_peer_range [OF assms(1)]
  by (simp add: priv_MIMPI_Send_def Send_Data_open frame_bytes_def Let_def valid_peer_def
      del: PREFIX_SIZE)


text \<open>
  C7. A payload \<open>data\<close> of \<open>count\<close> bytes is sent with \<^verbatim>\<open>_MIMPI_Send\<close> to a peer whose channel
  is open. The send succeeds, and \<^verbatim>\<open>_Receiver_Receive\<close> applied to the bytes the send has
  written returns true with the tag and the size of the send and a buffer whose first
  \<open>count\<close> bytes are \<open>data\<close>, and consumes all the bytes. This holds for every size, so
  for the sizes 496 (\<open>P - sizeof(Header)\<close>), 497, 1 and 0 of the claim.
\<close>

theorem framing_round_trip:
  assumes "valid_peer st destination" "ch_open (MIMPI_writers st destination)"
    and "length data = unat count'"
  shows "fst (priv_MIMPI_Send st data count' destination tag) = MIMPI_SUCCESS
    \<and> (case priv_Receiver_Receive tag0 size0 data0
               (drop (length (ch_bytes (MIMPI_writers st destination)))
                  (ch_bytes (MIMPI_writers
                     (snd (priv_MIMPI_Send st data count' destination tag)) destination))) of
          (ok, tag1, size1, data1, rest) \<Rightarrow>
            ok \<and> tag1 = tag \<and> size1 = count' \<and> take (unat size1) data1 = data \<and> rest = [])"
proof -
  have "priv_Receiver_Receive tag0 size0 data0 (frame_bytes count' tag data @ [])
     = (True, tag, count', if count' = 0 then data0 else read_bytes (unat count') data, [])"
    by (rule Receiver_Receive_frame)
  moreover have "data = []" if "count' = 0"
    using assms(3) that by simp
  ultimately show ?thesis
    using assms(3) by (auto simp: priv_MIMPI_Send_open [OF assms(1,2)] channel_append_def)
qed

text \<open>
  The theorem at rank 0 of a world of 2 processes, for payloads of 496, 497, 1 and 0
  bytes sent to rank 1 with tag 42 (\<open>round_trip_at\<close>, with the hypotheses of the theorem
  as its first three conjuncts).
\<close>

theorem framing_round_trip_witness:
  "round_trip_at 496 \<and> round_trip_at 497 \<and> round_trip_at 1 \<and> round_trip_at 0"
proof -
  let ?st = "MIMPI_Init 0 2 (\<lambda>r. \<lparr>ch_open = True, ch_bytes = []\<rparr>) False"
  have v: "valid_peer ?st 1" and o: "ch_open (MIMPI_writers ?st 1)"
    by (simp_all add: valid_peer_def MIMPI_Init_def word_sle_eq word_sless_alt)
  have "round_trip_at n" if l: "length (replicate n (7 :: uint8_t)) = unat (of_nat n :: size_t)" for n
    unfolding round_trip_at_def Let_def
    using framing_round_trip [OF v o l, of 42 0 0 "[]"] v o l by simp
  then show ?thesis by simp
qed

subsection \<open>Order of delivery\<close>



lemma MIMPI_Send_open:
  assumes "valid_peer st destination" "ch_open (MIMPI_writers st destination)"
  shows "MIMPI_Send st data count' destination tag =
     (MIMPI_SUCCESS,
      (case MIMPI_outboxes st of
         None \<Rightarrow> channel_append st destination (frame_bytes (scast count') tag data)
       | Some outboxes \<Rightarrow>
           (channel_append st destination (frame_bytes (scast count') tag data))
             \<lparr>MIMPI_outboxes := Some (outboxes(destination :=
                  Outbox_Push (outboxes destination) tag (scast count')))\<rparr>))"
  unfolding MIMPI_Send_def priv_MIMPI_Send_open [OF assms]
  by (cases "MIMPI_outboxes st") (simp_all add: channel_append_def)


lemma MIMPI_Send_open_effect:
  assumes "valid_peer st destination" "ch_open (MIMPI_writers st destination)"
  shows "fst (MIMPI_Send st data count' destination tag) = MIMPI_SUCCESS"
    and "MIMPI_writers (snd (MIMPI_Send st data count' destination tag))
           = MIMPI_writers (channel_append st destination (frame_bytes (scast count') tag data))"
    and "MIMPI_World_rank (snd (MIMPI_Send st data count' destination tag)) = MIMPI_World_rank st"
    and "MIMPI_World_size (snd (MIMPI_Send st data count' destination tag)) = MIMPI_World_size st"
  unfolding MIMPI_Send_open [OF assms]
  by (cases "MIMPI_outboxes st"; simp add: channel_append_def)+

lemma Send_sequence_open:
  assumes "valid_peer st destination" "ch_open (MIMPI_writers st destination)"
  shows "fst (Send_sequence st destination sends) = map (\<lambda>x. MIMPI_SUCCESS) sends
    \<and> ch_bytes (MIMPI_writers (snd (Send_sequence st destination sends)) destination)
        = ch_bytes (MIMPI_writers st destination) @ concat (map frame_of_send sends)"
  using assms
proof (induction sends arbitrary: st)
  case Nil
  then show ?case by simp
next
  case (Cons x sends)
  obtain data count' tag where x: "x = (data, count', tag)" by (cases x)
  obtain r1 st1 where m: "MIMPI_Send st data count' destination tag = (r1, st1)"
    by (cases "MIMPI_Send st data count' destination tag")
  note s = MIMPI_Send_open_effect [OF Cons.prems, of data count' tag, unfolded m fst_conv snd_conv]
  have v: "valid_peer st1 destination"
    using Cons.prems(1) s(3,4) by (simp add: valid_peer_def)
  have o: "ch_open (MIMPI_writers st1 destination)"
    using Cons.prems(2) by (simp add: s(2) channel_append_def)
  have b: "ch_bytes (MIMPI_writers st1 destination)
      = ch_bytes (MIMPI_writers st destination) @ frame_bytes (scast count') tag data"
    by (simp add: s(2) channel_append_def)
  obtain rs st2 where q: "Send_sequence st1 destination sends = (rs, st2)"
    by (cases "Send_sequence st1 destination sends")
  have "Send_sequence st destination (x # sends) = (r1 # rs, st2)"
    unfolding x by (simp add: m q)
  then show ?case
    using Cons.IH [OF v o] s(1) by (simp add: q b frame_of_send_def x)
qed

lemma Receiver_Receive_end: "priv_Receiver_Receive t sz d [] = (False, t, sz, d, [])"
  unfolding priv_Receiver_Receive_def chrecv_all_def by simp

lemma Receiver_Main_loop_end [simp]: "Receiver_Main_loop inbox t sz p d [] = inbox"
  by (subst Receiver_Main_loop.simps) (simp add: Receiver_Receive_end)


lemma Receiver_Main_loop_message:
  assumes "tag \<noteq> MIMPI_CLOSE_TAG" "tag \<noteq> MIMPI_REQUEST_TAG" "n \<noteq> 0"
  shows "Receiver_Main_loop inbox t sz p d (frame_bytes n tag data @ rest)
     = Receiver_Main_loop
         (Inbox_Save_Message (inbox\<lparr>ib_blocks := Suc (ib_blocks inbox)\<rparr>) tag n
            (Block (ib_blocks inbox)) (read_bytes (unat n) data))
         tag n (Block (ib_blocks inbox)) (read_bytes (unat n) data) rest"
  by (subst Receiver_Main_loop.simps)
    (simp add: Receiver_Receive_frame assms Receiver_malloc_def Receiver_data_def)









subsection \<open>The working buffer of a collective\<close>

lemma is_code_Update [simp]: "is_code (priv_MIMPI_Update_Retcode a b)"
  by (simp add: is_code_def priv_MIMPI_Update_Retcode_def)

lemma is_code_simps [simp]:
  "is_code MIMPI_SUCCESS" "is_code MIMPI_ERROR_ATTEMPTED_SELF_OP" "is_code MIMPI_ERROR_NO_SUCH_RANK"
  "is_code MIMPI_ERROR_REMOTE_FINISHED" "is_code MIMPI_ERROR_DEADLOCK_DETECTED"
  by (simp_all add: is_code_def)

lemma Retcode_of_value_value: "is_code c \<Longrightarrow> Retcode_of_value (Retcode_value c) = c"
  by (auto simp: is_code_def Retcode_of_value_def)

lemma sizeof_Retcode [simp]: "unat sizeof_MIMPI_Retcode = 4"
  by (simp add: sizeof_MIMPI_Retcode_def)

lemma get_status_set_status:
  assumes "unat n \<le> length data" "is_code c"
  shows "get_status n (set_status n data c) = c"
  using assms
  by (simp add: get_status_def set_status_def Retcode_of_value_value le_word_le_bytes_c_int)

lemma length_set_status:
  "unat n + 4 \<le> length data \<Longrightarrow> length (set_status n data c) = length data"
  by (simp add: set_status_def)

lemma take_set_status:
  "unat n \<le> length data \<Longrightarrow> take (unat n) (set_status n data c) = take (unat n) data"
  by (simp add: set_status_def)

lemma set_status_exact:
  "length data = unat n + 4 \<Longrightarrow> set_status n data c = take (unat n) data @ le_bytes 4 (Retcode_value c)"
  by (simp add: set_status_def)

lemma get_status_append:
  "length payload = unat n \<Longrightarrow> is_code c \<Longrightarrow> get_status n (payload @ le_bytes 4 (Retcode_value c)) = c"
  by (simp add: get_status_def Retcode_of_value_value le_word_le_bytes_c_int)

lemma length_malloc [simp]: "length (malloc n) = unat n"
  by (simp add: malloc_def)

lemma length_status_buffer [simp]: "length (status_buffer p c) = length p + 4"
  by (simp add: status_buffer_def)

lemma get_status_buffer [simp]:
  "length p = unat n \<Longrightarrow> is_code c \<Longrightarrow> get_status n (status_buffer p c) = c"
  by (simp add: status_buffer_def get_status_append)

lemma set_status_buffer [simp]:
  "length p = unat n \<Longrightarrow> set_status n (status_buffer p c) c' = status_buffer p c'"
  by (simp add: status_buffer_def set_status_def)

lemma set_status_malloc:
  "unat (n + sizeof_MIMPI_Retcode) = unat n + 4 \<Longrightarrow>
     set_status n (malloc (n + sizeof_MIMPI_Retcode)) c = status_buffer (replicate (unat n) 0) c"
  by (simp add: status_buffer_def set_status_def malloc_def)

lemma Reduce_loop_map2:
  "length result = k \<Longrightarrow> length other = k \<Longrightarrow>
     priv_MIMPI_Reduce_loop k (result @ rest) (other @ rest') op
       = map2 (Reduce_byte op) result other @ rest"
proof (induction k arbitrary: result other)
  case 0
  then show ?case by simp
next
  case (Suc k)
  then obtain r rs x xs where "result = r # rs" "other = x # xs"
    by (metis length_Suc_conv)
  with Suc show ?case by simp
qed

lemma Reduce_status_buffer [simp]:
  "length p = unat n \<Longrightarrow> length q = unat n \<Longrightarrow>
     priv_MIMPI_Reduce (status_buffer p c) (status_buffer q c') n op
       = status_buffer (Reduce_bytes op p q) c"
  by (simp add: priv_MIMPI_Reduce_def status_buffer_def Reduce_loop_map2 Reduce_bytes_def)

lemma length_Reduce_bytes [simp]:
  "length (Reduce_bytes op p q) = min (length p) (length q)"
  by (simp add: Reduce_bytes_def)

lemma memmove_all [simp]:
  "length src = unat n \<Longrightarrow> length dst = unat n \<Longrightarrow> memmove dst src n = src"
  by (simp add: memmove_def)

lemma memmove_payload:
  "length p = unat n \<Longrightarrow> length dst = unat n \<Longrightarrow> memmove dst (status_buffer p c) n = p"
  by (simp add: memmove_def status_buffer_def)

lemma memmove_into_malloc:
  "length p = unat n \<Longrightarrow> unat (n + sizeof_MIMPI_Retcode) = unat n + 4 \<Longrightarrow>
     memmove (malloc (n + sizeof_MIMPI_Retcode)) p n = p @ replicate 4 0"
  by (simp add: memmove_def malloc_def)

lemma set_status_payload_zeros:
  "length p = unat n \<Longrightarrow> set_status n (p @ replicate 4 0) c = status_buffer p c"
  by (simp add: set_status_def status_buffer_def)

lemma Update_SUCCESS [simp]:
  "is_code c \<Longrightarrow> priv_MIMPI_Update_Retcode c MIMPI_SUCCESS = c"
  "is_code c \<Longrightarrow> priv_MIMPI_Update_Retcode MIMPI_SUCCESS c = c"
  by (auto simp: is_code_def priv_MIMPI_Update_Retcode_def)

lemma Inbox_Retrieve_head_state:
  assumes "ib_entries (MIMPI_inboxes st source) = e # es"
    and "im_type e = INBOX_MESSAGE" "priv_Inbox_Match e tag n"
    and "ib_heap (MIMPI_inboxes st source) = Some freed" "im_block e = Block b" "b \<notin> freed"
  shows "Inbox_Retrieve st source tag n data
            = (Returns MIMPI_SUCCESS, consume st source, memmove data (im_data e) n)"
  using assms
  by (cases "MIMPI_outboxes st")
    (simp_all add: Inbox_Retrieve_def Let_def consume_def readable_def priv_Inbox_Delete_def
      free_def)

lemma Inbox_Retrieve_empty:
  assumes "ib_entries (MIMPI_inboxes st source) = []"
    and "ib_heap (MIMPI_inboxes st source) = Some freed"
  shows "Inbox_Retrieve st source tag n data = (Blocks, st, data)"
proof -
  have i: "(MIMPI_inboxes st source)\<lparr>ib_entries := [], ib_heap := Some freed\<rparr>
      = MIMPI_inboxes st source"
    using assms by (cases "MIMPI_inboxes st source") simp
  have j: "(MIMPI_inboxes st)(source := MIMPI_inboxes st source) = MIMPI_inboxes st"
    by simp
  have "Inbox_Retrieve st source tag n data
      = (Blocks, st\<lparr>MIMPI_inboxes := MIMPI_inboxes st, MIMPI_outboxes := MIMPI_outboxes st\<rparr>, data)"
    using assms
    by (cases "MIMPI_outboxes st") (simp_all add: Inbox_Retrieve_def Let_def i j)
  then show ?thesis by simp
qed

lemma group_message_match [simp]:
  "priv_Inbox_Match (group_message b n p c) MIMPI_GROUP_TAG (n + sizeof_MIMPI_Retcode)"
  "im_type (group_message b n p c) = INBOX_MESSAGE"
  "im_data (group_message b n p c) = status_buffer p c"
  "im_block (group_message b n p c) = Block b"
  by (simp_all add: group_message_def priv_Inbox_Match_def)

lemma consume_simps [simp]:
  "MIMPI_World_rank (consume st c) = MIMPI_World_rank st"
  "MIMPI_World_size (consume st c) = MIMPI_World_size st"
  "MIMPI_deadlock_detection (consume st c) = MIMPI_deadlock_detection st"
  "MIMPI_outboxes (consume st c) = MIMPI_outboxes st"
  "MIMPI_writers (consume st c) = MIMPI_writers st"
  "c' \<noteq> c \<Longrightarrow> MIMPI_inboxes (consume st c) c' = MIMPI_inboxes st c'"
  "ib_entries (MIMPI_inboxes (consume st c) c) = tl (ib_entries (MIMPI_inboxes st c))"
  by (simp_all add: consume_def)

lemma Collect_children_ready:
  assumes "unat (n + sizeof_MIMPI_Retcode) = unat n + 4"
    and "length p0 = unat n" "is_code c0" "length cd = unat n + 4"
    and "\<forall>c \<in> set (real_children children).
           (\<exists>later b freed.
              ib_entries (MIMPI_inboxes st c) = group_message b n (pay c) MIMPI_SUCCESS # later
              \<and> ib_heap (MIMPI_inboxes st c) = Some freed \<and> b \<notin> freed)
           \<and> length (pay c) = unat n"
    and "distinct (real_children children)"
  shows "\<exists>st' cd'. Collect_children st children n op (status_buffer p0 c0) cd
            = (Returns (), st',
               status_buffer (foldl (Reduce_bytes op) p0 (map pay (real_children children))) c0, cd')
          \<and> MIMPI_World_rank st' = MIMPI_World_rank st
          \<and> MIMPI_World_size st' = MIMPI_World_size st
          \<and> MIMPI_deadlock_detection st' = MIMPI_deadlock_detection st
          \<and> MIMPI_outboxes st' = MIMPI_outboxes st
          \<and> MIMPI_writers st' = MIMPI_writers st"
  using assms(2,4,5,6)
proof (induction children arbitrary: st p0 cd)
  case Nil
  then show ?case by (simp add: real_children_def)
next
  case (Cons child children)
  show ?case
  proof (cases "child = - 1")
    case True
    then have rc: "real_children (child # children) = real_children children"
      by (simp add: real_children_def)
    show ?thesis
      using Cons.IH [OF Cons.prems(1,2) Cons.prems(3,4) [unfolded rc]] True
      by (simp add: real_children_def)
  next
    case False
    then have rc: "real_children (child # children) = child # real_children children"
      by (simp add: real_children_def)
    obtain later b freed where ent: "ib_entries (MIMPI_inboxes st child)
        = group_message b n (pay child) MIMPI_SUCCESS # later"
      and heap: "ib_heap (MIMPI_inboxes st child) = Some freed" "b \<notin> freed"
      and lp: "length (pay child) = unat n"
      using Cons.prems(3) rc by auto
    have recv: "priv_MIMPI_Recv st cd (n + sizeof_MIMPI_Retcode) child MIMPI_GROUP_TAG
        = (Returns MIMPI_SUCCESS, consume st child, status_buffer (pay child) MIMPI_SUCCESS)"
      unfolding priv_MIMPI_Recv_def
      using Inbox_Retrieve_head_state [OF ent _ _ heap(1) _ heap(2),
          of MIMPI_GROUP_TAG "n + sizeof_MIMPI_Retcode" cd]
        lp Cons.prems(2) assms(1)
      by simp
    let ?p1 = "Reduce_bytes op p0 (pay child)"
    have step: "Collect_children st (child # children) n op (status_buffer p0 c0) cd
      = Collect_children (consume st child) children n op (status_buffer ?p1 c0)
          (status_buffer (pay child) MIMPI_SUCCESS)"
      using False recv lp Cons.prems(1) assms(3) by (simp add: Let_def)
    have l1: "length ?p1 = unat n" using lp Cons.prems(1) by simp
    have l2: "length (status_buffer (pay child) MIMPI_SUCCESS) = unat n + 4" using lp by simp
    have d: "distinct (real_children children)" "child \<notin> set (real_children children)"
      using Cons.prems(4) rc by simp_all
    have ready: "\<forall>c \<in> set (real_children children).
           (\<exists>later b freed. ib_entries (MIMPI_inboxes (consume st child) c)
               = group_message b n (pay c) MIMPI_SUCCESS # later
              \<and> ib_heap (MIMPI_inboxes (consume st child) c) = Some freed \<and> b \<notin> freed)
           \<and> length (pay c) = unat n"
    proof
      fix c assume c: "c \<in> set (real_children children)"
      then have "c \<noteq> child" using d(2) by auto
      then have "MIMPI_inboxes (consume st child) c = MIMPI_inboxes st c" by simp
      then show "(\<exists>later b freed. ib_entries (MIMPI_inboxes (consume st child) c)
               = group_message b n (pay c) MIMPI_SUCCESS # later
              \<and> ib_heap (MIMPI_inboxes (consume st child) c) = Some freed \<and> b \<notin> freed)
           \<and> length (pay c) = unat n"
        using Cons.prems(3) c rc by simp
    qed
    show ?thesis
      using Cons.IH [OF l1 l2 ready d(1)] unfolding step rc by simp
  qed
qed

lemma Collect_initial:
  assumes "unat (n + sizeof_MIMPI_Retcode) = unat n + 4" "length p = unat n"
  shows "set_status n (if n \<noteq> 0 then memmove (malloc (n + sizeof_MIMPI_Retcode)) p n
                         else malloc (n + sizeof_MIMPI_Retcode)) MIMPI_SUCCESS
           = status_buffer p MIMPI_SUCCESS"
proof (cases "n = 0")
  case True
  then have "p = []" using assms(2) by simp
  then show ?thesis using True set_status_malloc [of 0 MIMPI_SUCCESS] by simp
next
  case False
  then show ?thesis
    using assms by (simp add: memmove_into_malloc set_status_payload_zeros)
qed

lemma Collect_after_children:
  assumes len: "unat (n + sizeof_MIMPI_Retcode) = unat n + 4"
    and p: "length (send_payload send_data) = unat n"
    and loop: "Collect_children st children n op (status_buffer (send_payload send_data) MIMPI_SUCCESS)
                 (malloc (n + sizeof_MIMPI_Retcode))
               = (Returns (), st1, status_buffer acc c, cd')"
    and acc: "length acc = unat n" "is_code c"
    and recv: "\<forall>bytes. recv_data = Some bytes \<longrightarrow> length bytes = unat n"
  shows "priv_MIMPI_Collect st parent children send_data recv_data n op =
     (if parent \<noteq> - 1
      then (case priv_MIMPI_Send st1 (status_buffer acc c) (n + sizeof_MIMPI_Retcode) parent
                   MIMPI_GROUP_TAG of
              (retcode, st2) \<Rightarrow>
                (Returns (priv_MIMPI_Update_Retcode c retcode), st2,
                 map_option (\<lambda>bytes. acc) recv_data))
      else (Returns c, st1, map_option (\<lambda>bytes. acc) recv_data))"
proof -
  have r: "(case recv_data of None \<Rightarrow> None
            | Some bytes \<Rightarrow> if n \<noteq> 0 then Some (memmove bytes (status_buffer acc c) n)
                            else Some bytes) = map_option (\<lambda>bytes. acc) recv_data"
  proof (cases recv_data)
    case None
    then show ?thesis by simp
  next
    case (Some bytes)
    then have l: "length bytes = unat n" using recv by simp
    show ?thesis
    proof (cases "n = 0")
      case True
      then show ?thesis using l acc Some by simp
    next
      case False
      then show ?thesis using l acc Some by (simp add: memmove_payload)
    qed
  qed
  have i: "set_status n (if n \<noteq> 0 then memmove (malloc (n + sizeof_MIMPI_Retcode))
                 (case send_data of None \<Rightarrow> [] | Some bytes \<Rightarrow> bytes) n
               else malloc (n + sizeof_MIMPI_Retcode)) MIMPI_SUCCESS
           = status_buffer (send_payload send_data) MIMPI_SUCCESS"
    using Collect_initial [OF len p] unfolding send_payload_def .
  show ?thesis
    unfolding priv_MIMPI_Collect_def Let_def i loop
    using acc by (simp add: r split: prod.split)
qed

lemma Distribute_children_open:
  assumes "length p = unat n" "is_code c"
    and "\<forall>child \<in> set (real_children children).
            valid_peer st child \<and> ch_open (MIMPI_writers st child)"
  shows "\<exists>st'. Distribute_children st children n (status_buffer p c) = (st', status_buffer p c)
           \<and> MIMPI_World_rank st' = MIMPI_World_rank st
           \<and> MIMPI_World_size st' = MIMPI_World_size st
           \<and> MIMPI_outboxes st' = MIMPI_outboxes st
           \<and> MIMPI_inboxes st' = MIMPI_inboxes st"
  using assms(3)
proof (induction children arbitrary: st)
  case Nil
  then show ?case by simp
next
  case (Cons child children)
  show ?case
  proof (cases "child = - 1")
    case True
    then show ?thesis using Cons by (simp add: real_children_def)
  next
    case False
    then have rc: "real_children (child # children) = child # real_children children"
      by (simp add: real_children_def)
    have v: "valid_peer st child" "ch_open (MIMPI_writers st child)"
      using Cons.prems rc by simp_all
    let ?st1 = "channel_append st child
        (frame_bytes (n + sizeof_MIMPI_Retcode) MIMPI_GROUP_TAG (status_buffer p c))"
    have step: "Distribute_children st (child # children) n (status_buffer p c)
        = Distribute_children ?st1 children n (status_buffer p c)"
      using False assms(1,2) by (simp add: priv_MIMPI_Send_open [OF v])
    have "\<forall>child \<in> set (real_children children).
            valid_peer ?st1 child \<and> ch_open (MIMPI_writers ?st1 child)"
      using Cons.prems rc by (simp add: channel_append_def valid_peer_def)
    from Cons.IH [OF this] show ?thesis
      unfolding step by (auto simp: channel_append_def)
  qed
qed

subsection \<open>The collectives and the outbox\<close>

lemma group_frames_simps [simp]:
  "group_frames [] = []"
  "group_frames (fs @ gs) = group_frames fs @ group_frames gs"
  "group_frames [(n, data)] = frame_bytes n MIMPI_GROUP_TAG data"
  by (simp_all add: group_frames_def)
















lemma nb_0_0_2: "priv_MIMPI_Get_Neighbours 0 0 2 = (- 1, [1, - 1])"
  using Get_Neighbours_tree_index [of 0 2 0] by (simp add: tree_index_def)







subsection \<open>The status of a collective\<close>

lemma Inbox_Retrieve_by_loop:
  assumes "ib_heap (MIMPI_inboxes st source) = Some freed"
    and "Inbox_Retrieve_loop (MIMPI_deadlock_detection st) tag n data []
             (outbox_of st (ib_rank (MIMPI_inboxes st source))) freed
             (ib_entries (MIMPI_inboxes st source)) = (r, es, ob, fr, d)"
  shows "\<exists>st'. Inbox_Retrieve st source tag n data = (r, st', d)
          \<and> MIMPI_World_rank st' = MIMPI_World_rank st
          \<and> MIMPI_World_size st' = MIMPI_World_size st
          \<and> MIMPI_deadlock_detection st' = MIMPI_deadlock_detection st
          \<and> MIMPI_writers st' = MIMPI_writers st
          \<and> ib_entries (MIMPI_inboxes st' source) = es
          \<and> ib_heap (MIMPI_inboxes st' source) = Some fr
          \<and> (MIMPI_outboxes st' = None \<longleftrightarrow> MIMPI_outboxes st = None)"
  using assms
  by (cases "MIMPI_outboxes st") (simp_all add: Inbox_Retrieve_def Let_def outbox_of_def)

lemma Receiver_request_header:
  assumes "ib_heap inbox = Some freed" "b \<notin> freed"
  shows "Receiver_request inbox (Block b) (header_bytes h)
     = (Inbox_Save_Request inbox (h_tag h) (h_size h))\<lparr>ib_heap := Some (insert b freed)\<rparr>"
  using assms
  by (simp add: Receiver_request_def readable_def free_def sizeof_header_t_def)

lemma Receiver_Main_loop_request:
  "Receiver_Main_loop inbox t sz p d
     (frame_bytes sizeof_header_t MIMPI_REQUEST_TAG (header_bytes h) @ rest)
   = Receiver_Main_loop
       (Receiver_request (inbox\<lparr>ib_blocks := Suc (ib_blocks inbox)\<rparr>)
          (Block (ib_blocks inbox)) (header_bytes h))
       MIMPI_REQUEST_TAG sizeof_header_t (Block (ib_blocks inbox)) (header_bytes h) rest"
  by (subst Receiver_Main_loop.simps)
    (simp add: Receiver_Receive_frame sizeof_header_t_def MIMPI_REQUEST_TAG_def
      MIMPI_CLOSE_TAG_def Receiver_malloc_def Receiver_data_def)

lemma root_waiting:
  "MIMPI_Recv (MIMPI_Init 0 2 fresh_channels True) [0, 0, 0, 0] 4 1 5
     = (Blocks, status_root_waiting, [0, 0, 0, 0])"
  "status_root_waiting = channel_append (MIMPI_Init 0 2 fresh_channels True) 1
      (frame_bytes sizeof_header_t MIMPI_REQUEST_TAG (header_bytes \<lparr>h_size = 4, h_tag = 5\<rparr>))"
proof -
  let ?st0 = "MIMPI_Init 0 2 fresh_channels True"
  let ?st1 = "channel_append ?st0 1
      (frame_bytes sizeof_header_t MIMPI_REQUEST_TAG (header_bytes \<lparr>h_size = 4, h_tag = 5\<rparr>))"
  have o: "ch_open (MIMPI_writers ?st0 1)" "MIMPI_deadlock_detection ?st0"
    by (simp_all add: MIMPI_Init_def fresh_channels_def)
  have f: "frame_bytes sizeof_header_t MIMPI_REQUEST_TAG (header_bytes \<lparr>h_size = 4, h_tag = 5\<rparr>)
      = prefix_bytes \<lparr>p_header = \<lparr>h_size = sizeof_header_t, h_tag = MIMPI_REQUEST_TAG\<rparr>,
                      p_data = memmove (replicate 496 0) (header_bytes \<lparr>h_size = 4, h_tag = 5\<rparr>)
                                 sizeof_header_t\<rparr>"
    by (rule frame_bytes_small) (simp add: sizeof_header_t_def)
  have d: "priv_MIMPI_Deadlock_Request ?st0 4 1 5 = (MIMPI_SUCCESS, ?st1)"
    using o(2) by (simp add: priv_MIMPI_Deadlock_Request_def Let_def Send_Data_open_None [OF o(1)] f)
  have e: "ib_entries (MIMPI_inboxes ?st1 1) = []" "ib_heap (MIMPI_inboxes ?st1 1) = Some {}"
    by (simp_all add: channel_append_def MIMPI_Init_def Inbox_Init_def)
  have rk: "MIMPI_World_rank ?st0 = 0" "MIMPI_World_size ?st0 = 2"
    by (simp_all add: MIMPI_Init_def)
  have sc: "(scast (4 :: c_int) :: size_t) = 4" by simp
  have r: "MIMPI_Recv ?st0 [0, 0, 0, 0] 4 1 5 = (Blocks, ?st1, [0, 0, 0, 0])"
    unfolding MIMPI_Recv_def rk sc d
    by (simp add: priv_MIMPI_Recv_def Inbox_Retrieve_empty [OF e] word_sle_eq word_sless_alt)
  then show "status_root_waiting = ?st1" by (simp add: status_root_waiting_def)
  with r show "MIMPI_Recv ?st0 [0, 0, 0, 0] 4 1 5 = (Blocks, status_root_waiting, [0, 0, 0, 0])"
    by simp
qed

lemma leaf_entering:
  "MIMPI_World_rank status_leaf_entering = 1" "MIMPI_World_size status_leaf_entering = 2"
  "MIMPI_deadlock_detection status_leaf_entering"
  "outbox_of status_leaf_entering 0 = []"
  "MIMPI_inboxes status_leaf_entering 0 = \<lparr>ib_rank = 0, ib_entries =
      [\<lparr>im_type = INBOX_REQUEST, im_tag = 5, im_size = 4, im_block = NULL, im_data = []\<rparr>],
      ib_deadlocks = 0, ib_blocks = 1, ib_heap = Some {0}\<rparr>"
  "MIMPI_writers status_leaf_entering = fresh_channels"
  unfolding status_leaf_entering_def root_waiting(2) deliver_def
  using Receiver_Main_loop_request [of "Inbox_Init 0" 0 0 Indeterminate "[]"
      "\<lparr>h_size = 4, h_tag = 5\<rparr>" "[]"]
    Receiver_request_header [of "(Inbox_Init 0)\<lparr>ib_blocks := Suc 0\<rparr>" "{}" 0
      "\<lparr>h_size = 4, h_tag = 5\<rparr>"]
  by (simp_all add: MIMPI_Init_def channel_append_def fresh_channels_def outbox_of_def
      Outbox_Init_def Inbox_Save_Request_def priv_Inbox_Save_def Inbox_Init_def)

lemma nb_1_0_2: "priv_MIMPI_Get_Neighbours 1 0 2 = (0, [- 1, - 1])"
  using Get_Neighbours_tree_index [of 1 2 0] by (simp add: tree_index_def)

lemma set_status_malloc_0:
  "set_status 0 (malloc (0 + sizeof_MIMPI_Retcode)) c = status_buffer [] c"
  using set_status_malloc [of 0 c] by simp

lemma len_0: "unat (0 + sizeof_MIMPI_Retcode) = unat (0 :: size_t) + 4"
  by simp

lemma leaf_barrier:
  "\<exists>st'. MIMPI_Barrier status_leaf_entering = (Returns MIMPI_ERROR_DEADLOCK_DETECTED, st')
     \<and> MIMPI_World_rank st' = 1 \<and> MIMPI_World_size st' = 2
     \<and> ch_open (MIMPI_writers st' 0)
     \<and> ch_bytes (MIMPI_writers st' 0)
          = frame_bytes (0 + sizeof_MIMPI_Retcode) MIMPI_GROUP_TAG (status_buffer [] MIMPI_SUCCESS)"
proof -
  let ?st = status_leaf_entering
  let ?st2 = "channel_append ?st 0
      (frame_bytes (0 + sizeof_MIMPI_Retcode) MIMPI_GROUP_TAG (status_buffer [] MIMPI_SUCCESS))"
  have v: "valid_peer ?st 0" "ch_open (MIMPI_writers ?st 0)"
    by (simp_all add: valid_peer_def leaf_entering word_sle_eq word_sless_alt fresh_channels_def)
  have loop: "Collect_children ?st [- 1, - 1] 0 MIMPI_NOOP
      (status_buffer (send_payload None) MIMPI_SUCCESS) (malloc (0 + sizeof_MIMPI_Retcode))
      = (Returns (), ?st, status_buffer [] MIMPI_SUCCESS, malloc (0 + sizeof_MIMPI_Retcode))"
    by (simp add: send_payload_def)
  have c: "priv_MIMPI_Collect ?st 0 [- 1, - 1] None None 0 MIMPI_NOOP
      = (Returns MIMPI_SUCCESS, ?st2, None)"
    using Collect_after_children [OF len_0 _ loop, of None 0]
    by (simp add: send_payload_def priv_MIMPI_Send_open [OF v] del: add_0 add.left_neutral)
  have st2: "MIMPI_deadlock_detection ?st2"
    "outbox_of ?st2 (ib_rank (MIMPI_inboxes ?st2 0)) = []"
    "ib_entries (MIMPI_inboxes ?st2 0)
       = [\<lparr>im_type = INBOX_REQUEST, im_tag = 5, im_size = 4, im_block = NULL, im_data = []\<rparr>]"
    "ib_heap (MIMPI_inboxes ?st2 0) = Some {0}"
    by (simp_all add: channel_append_def leaf_entering outbox_of_def
        leaf_entering(4) [unfolded outbox_of_def])
  have l: "Inbox_Retrieve_loop (MIMPI_deadlock_detection ?st2) MIMPI_GROUP_TAG
      (0 + sizeof_MIMPI_Retcode) (status_buffer [] MIMPI_SUCCESS) []
      (outbox_of ?st2 (ib_rank (MIMPI_inboxes ?st2 0))) {0} (ib_entries (MIMPI_inboxes ?st2 0))
      = (Returns MIMPI_ERROR_DEADLOCK_DETECTED, [], [], {0}, status_buffer [] MIMPI_SUCCESS)"
    unfolding st2(2,3) using st2(1) by (simp add: priv_Inbox_Delete_def)
  obtain st3 where r: "Inbox_Retrieve ?st2 0 MIMPI_GROUP_TAG (0 + sizeof_MIMPI_Retcode)
        (status_buffer [] MIMPI_SUCCESS)
      = (Returns MIMPI_ERROR_DEADLOCK_DETECTED, st3, status_buffer [] MIMPI_SUCCESS)"
    and st3: "MIMPI_World_rank st3 = MIMPI_World_rank ?st2"
      "MIMPI_World_size st3 = MIMPI_World_size ?st2" "MIMPI_writers st3 = MIMPI_writers ?st2"
    using Inbox_Retrieve_by_loop [OF st2(4) l] by blast
  have "priv_MIMPI_Distribute ?st2 0 [- 1, - 1] None 0 MIMPI_SUCCESS
      = (Returns MIMPI_ERROR_DEADLOCK_DETECTED, st3, None)"
    unfolding priv_MIMPI_Distribute_def Let_def set_status_malloc_0 priv_MIMPI_Recv_def r
    by (simp add: priv_MIMPI_Update_Retcode_def)
  then have "MIMPI_Barrier ?st = (Returns MIMPI_ERROR_DEADLOCK_DETECTED, st3)"
    by (simp add: MIMPI_Barrier_def leaf_entering nb_1_0_2 c)
  then show ?thesis
    using st3 by (simp add: channel_append_def leaf_entering fresh_channels_def)
qed

lemma Distribute_root_open:
  assumes "\<forall>child \<in> set (real_children children).
             valid_peer st child \<and> ch_open (MIMPI_writers st child)"
    and "is_code c"
  shows "\<exists>st'. priv_MIMPI_Distribute st (- 1) children None 0 c = (Returns c, st', None)"
proof -
  obtain st' where d: "Distribute_children st children 0 (status_buffer [] c)
      = (st', status_buffer [] c)"
    using Distribute_children_open [OF _ assms(2,1), of "[]" 0] by auto
  show ?thesis
    unfolding priv_MIMPI_Distribute_def Let_def set_status_malloc_0
    using assms(2) by (simp add: d del: Distribute_children.simps)
qed

lemma leaf_sent:
  "fst (MIMPI_Send (snd (MIMPI_Barrier status_leaf_entering)) [1, 2, 3, 4] 4 0 5) = MIMPI_SUCCESS"
  "ch_bytes (MIMPI_writers status_leaf_sent 0)
     = frame_bytes (0 + sizeof_MIMPI_Retcode) MIMPI_GROUP_TAG (status_buffer [] MIMPI_SUCCESS)
       @ frame_bytes 4 5 [1, 2, 3, 4]"
proof -
  obtain st3 where b: "MIMPI_Barrier status_leaf_entering
      = (Returns MIMPI_ERROR_DEADLOCK_DETECTED, st3)"
    and st3: "MIMPI_World_rank st3 = 1" "MIMPI_World_size st3 = 2" "ch_open (MIMPI_writers st3 0)"
      "ch_bytes (MIMPI_writers st3 0)
         = frame_bytes (0 + sizeof_MIMPI_Retcode) MIMPI_GROUP_TAG (status_buffer [] MIMPI_SUCCESS)"
    using leaf_barrier by blast
  have v: "valid_peer st3 0"
    using st3 by (simp add: valid_peer_def word_sle_eq word_sless_alt)
  have sc: "(scast (4 :: c_int) :: size_t) = 4" by simp
  note e = MIMPI_Send_open_effect [OF v st3(3), of "[1, 2, 3, 4]" 4 5, unfolded sc]
  show "fst (MIMPI_Send (snd (MIMPI_Barrier status_leaf_entering)) [1, 2, 3, 4] 4 0 5)
      = MIMPI_SUCCESS"
    unfolding b snd_conv by (rule e(1))
  show "ch_bytes (MIMPI_writers status_leaf_sent 0)
     = frame_bytes (0 + sizeof_MIMPI_Retcode) MIMPI_GROUP_TAG (status_buffer [] MIMPI_SUCCESS)
       @ frame_bytes 4 5 [1, 2, 3, 4]"
    unfolding status_leaf_sent_def b snd_conv e(2)
    by (simp add: channel_append_def st3(4) del: add_0 add.left_neutral)
qed

lemma root_served:
  "MIMPI_World_rank status_root_served = 0" "MIMPI_World_size status_root_served = 2"
  "MIMPI_deadlock_detection status_root_served"
  "ch_open (MIMPI_writers status_root_served 1)"
  "ib_entries (MIMPI_inboxes status_root_served 1)
     = [group_message 0 0 [] MIMPI_SUCCESS,
        \<lparr>im_type = INBOX_MESSAGE, im_tag = 5, im_size = 4, im_block = Block 1,
           im_data = [1, 2, 3, 4]\<rparr>]"
  "ib_heap (MIMPI_inboxes status_root_served 1) = Some {}"
proof -
  have g: "MIMPI_GROUP_TAG \<noteq> MIMPI_CLOSE_TAG" "MIMPI_GROUP_TAG \<noteq> MIMPI_REQUEST_TAG"
    "0 + sizeof_MIMPI_Retcode \<noteq> 0"
    "(5 :: c_int) \<noteq> MIMPI_CLOSE_TAG" "(5 :: c_int) \<noteq> MIMPI_REQUEST_TAG" "(4 :: size_t) \<noteq> 0"
    by (simp_all add: MIMPI_GROUP_TAG_def MIMPI_CLOSE_TAG_def MIMPI_REQUEST_TAG_def
        sizeof_MIMPI_Retcode_def)
  have r: "Receiver_Main_loop (Inbox_Init 1) 0 0 Indeterminate []
      (frame_bytes (0 + sizeof_MIMPI_Retcode) MIMPI_GROUP_TAG (status_buffer [] MIMPI_SUCCESS)
       @ frame_bytes 4 5 [1, 2, 3, 4] @ [])
    = \<lparr>ib_rank = 1, ib_entries = [group_message 0 0 [] MIMPI_SUCCESS,
        \<lparr>im_type = INBOX_MESSAGE, im_tag = 5, im_size = 4, im_block = Block 1,
           im_data = [1, 2, 3, 4]\<rparr>],
        ib_deadlocks = 0, ib_blocks = 2, ib_heap = Some {}\<rparr>"
    unfolding Receiver_Main_loop_message [OF g(1,2,3)] Receiver_Main_loop_message [OF g(4,5,6)]
    by (simp add: Inbox_Save_Message_def priv_Inbox_Save_def Inbox_Init_def group_message_def
        sizeof_MIMPI_Retcode_def read_bytes_def status_buffer_def)
  show "MIMPI_World_rank status_root_served = 0" "MIMPI_World_size status_root_served = 2"
    "MIMPI_deadlock_detection status_root_served"
    "ch_open (MIMPI_writers status_root_served 1)"
    unfolding status_root_served_def deliver_def root_waiting(2)
    by (simp_all add: channel_append_def MIMPI_Init_def fresh_channels_def)
  show "ib_entries (MIMPI_inboxes status_root_served 1)
     = [group_message 0 0 [] MIMPI_SUCCESS,
        \<lparr>im_type = INBOX_MESSAGE, im_tag = 5, im_size = 4, im_block = Block 1,
           im_data = [1, 2, 3, 4]\<rparr>]"
    "ib_heap (MIMPI_inboxes status_root_served 1) = Some {}"
    unfolding status_root_served_def deliver_def leaf_sent(2)
    using r by simp_all
qed

lemma root_recv:
  "\<exists>st'. priv_MIMPI_Recv status_root_served [0, 0, 0, 0] 4 1 5
            = (Returns MIMPI_SUCCESS, st', [1, 2, 3, 4])
        \<and> MIMPI_World_rank st' = 0 \<and> MIMPI_World_size st' = 2
        \<and> ch_open (MIMPI_writers st' 1)
        \<and> ib_entries (MIMPI_inboxes st' 1) = [group_message 0 0 [] MIMPI_SUCCESS]
        \<and> ib_heap (MIMPI_inboxes st' 1) = Some {1}"
proof -
  have l: "Inbox_Retrieve_loop (MIMPI_deadlock_detection status_root_served) 5 4 [0, 0, 0, 0] []
      (outbox_of status_root_served (ib_rank (MIMPI_inboxes status_root_served 1))) {}
      (ib_entries (MIMPI_inboxes status_root_served 1))
      = (Returns MIMPI_SUCCESS, [group_message 0 0 [] MIMPI_SUCCESS],
         outbox_of status_root_served (ib_rank (MIMPI_inboxes status_root_served 1)),
         {1}, [1, 2, 3, 4])"
    unfolding root_served(5)
    by (simp add: group_message_def priv_Inbox_Match_def MIMPI_GROUP_TAG_def MIMPI_ANY_TAG_def
        sizeof_MIMPI_Retcode_def memmove_def readable_def priv_Inbox_Delete_def free_def)
  show ?thesis
    using Inbox_Retrieve_by_loop [OF root_served(6) l] unfolding priv_MIMPI_Recv_def
    by (auto simp: root_served)
qed

lemma root_barrier:
  "fst (MIMPI_Barrier status_root_entering) = Returns MIMPI_SUCCESS"
proof -
  obtain st' where r: "priv_MIMPI_Recv status_root_served [0, 0, 0, 0] 4 1 5
            = (Returns MIMPI_SUCCESS, st', [1, 2, 3, 4])"
    and st': "MIMPI_World_rank st' = 0" "MIMPI_World_size st' = 2"
      "ch_open (MIMPI_writers st' 1)"
      "ib_entries (MIMPI_inboxes st' 1) = [group_message 0 0 [] MIMPI_SUCCESS]"
      "ib_heap (MIMPI_inboxes st' 1) = Some {1}"
    using root_recv by blast
  have e: "status_root_entering = st'"
    by (simp add: status_root_entering_def r)
  have rc: "real_children [1, - 1] = [1 :: c_int]" by (simp add: real_children_def)
  have ready: "\<forall>c \<in> set (real_children [1, - 1]).
           (\<exists>later b freed. ib_entries (MIMPI_inboxes st' c)
               = group_message b 0 ((\<lambda>c. []) c) MIMPI_SUCCESS # later
              \<and> ib_heap (MIMPI_inboxes st' c) = Some freed \<and> b \<notin> freed)
           \<and> length ((\<lambda>c. [] :: uint8_t list) c) = unat (0 :: size_t)"
    unfolding rc by (simp add: st') (rule exI [of _ 0], simp)
  obtain st1 cd' where loop: "Collect_children st' [1, - 1] 0 MIMPI_NOOP
        (status_buffer [] MIMPI_SUCCESS) (malloc (0 + sizeof_MIMPI_Retcode))
      = (Returns (), st1, status_buffer (foldl (Reduce_bytes MIMPI_NOOP) []
            (map (\<lambda>c. []) (real_children [1, - 1]))) MIMPI_SUCCESS, cd')"
    and st1: "MIMPI_World_rank st1 = MIMPI_World_rank st'"
      "MIMPI_World_size st1 = MIMPI_World_size st'" "MIMPI_writers st1 = MIMPI_writers st'"
    using Collect_children_ready [OF len_0 _ _ _ ready, of "[]" MIMPI_SUCCESS
        "malloc (0 + sizeof_MIMPI_Retcode)" MIMPI_NOOP]
    unfolding rc by auto
  have loop': "Collect_children st' [1, - 1] 0 MIMPI_NOOP
        (status_buffer (send_payload None) MIMPI_SUCCESS) (malloc (0 + sizeof_MIMPI_Retcode))
      = (Returns (), st1, status_buffer [] MIMPI_SUCCESS, cd')"
    using loop by (simp add: rc send_payload_def Reduce_bytes_def del: Collect_children.simps)
  have c: "priv_MIMPI_Collect st' (- 1) [1, - 1] None None 0 MIMPI_NOOP
      = (Returns MIMPI_SUCCESS, st1, None)"
    using Collect_after_children [OF len_0 _ loop', of None "- 1"]
    by (simp add: send_payload_def)
  have v: "\<forall>child \<in> set (real_children [1, - 1]).
      valid_peer st1 child \<and> ch_open (MIMPI_writers st1 child)"
    unfolding rc using st' st1 by (simp add: valid_peer_def word_sle_eq word_sless_alt)
  obtain st2 where d: "priv_MIMPI_Distribute st1 (- 1) [1, - 1] None 0 MIMPI_SUCCESS
      = (Returns MIMPI_SUCCESS, st2, None)"
    using Distribute_root_open [OF v, of MIMPI_SUCCESS] by auto
  show ?thesis
    unfolding e by (simp add: MIMPI_Barrier_def st' nb_0_0_2 c d)
qed

text \<open>
  C5. For two return codes of the enumeration \<^verbatim>\<open>_MIMPI_Update_Retcode\<close> returns the one that
  is earlier in the precedence order \<open>NO_SUCH_RANK > ATTEMPTED_SELF_OP > REMOTE_FINISHED >
  DEADLOCK_DETECTED > SUCCESS\<close>.
\<close>

theorem Update_Retcode_precedence:
  assumes "is_code a" "is_code b"
  shows "priv_MIMPI_Update_Retcode a b
           = (if spec_precedence b \<le> spec_precedence a then a else b)"
  using assms
  by (auto simp: is_code_def priv_MIMPI_Update_Retcode_def spec_precedence_def)

text \<open>The theorem for two pairs of codes.\<close>

theorem Update_Retcode_precedence_witness:
  "is_code MIMPI_ERROR_DEADLOCK_DETECTED \<and> is_code MIMPI_ERROR_REMOTE_FINISHED
   \<and> is_code MIMPI_SUCCESS \<and> is_code MIMPI_ERROR_NO_SUCH_RANK
   \<and> priv_MIMPI_Update_Retcode MIMPI_ERROR_DEADLOCK_DETECTED MIMPI_ERROR_REMOTE_FINISHED
       = MIMPI_ERROR_REMOTE_FINISHED
   \<and> priv_MIMPI_Update_Retcode MIMPI_ERROR_NO_SUCH_RANK MIMPI_SUCCESS
       = MIMPI_ERROR_NO_SUCH_RANK"
  using Update_Retcode_precedence [of MIMPI_ERROR_DEADLOCK_DETECTED MIMPI_ERROR_REMOTE_FINISHED]
    Update_Retcode_precedence [of MIMPI_ERROR_NO_SUCH_RANK MIMPI_SUCCESS]
  by (simp add: spec_precedence_def)

text \<open>
  C5 as stated fails in its consequence that every participant of a collective returns
  the same code. In the run above rank 0 waits in \<open>MIMPI_Recv\<close>; the barrier of rank 1 sends
  the status \<open>MIMPI_SUCCESS\<close> to rank 0 in \<^verbatim>\<open>_MIMPI_Collect\<close>, meets the request of rank 0 in
  the receive of \<^verbatim>\<open>_MIMPI_Distribute\<close> with an empty outbox and returns
  \<open>MIMPI_ERROR_DEADLOCK_DETECTED\<close>; rank 1 then sends, the receive of rank 0 returns, and
  the barrier of rank 0 returns \<open>MIMPI_SUCCESS\<close>.
\<close>

theorem barrier_codes_differ_counterexample:
  "MIMPI_Recv (MIMPI_Init 0 2 fresh_channels True) [0, 0, 0, 0] 4 1 5
     = (Blocks, status_root_waiting, [0, 0, 0, 0])
   \<and> fst (MIMPI_Barrier status_leaf_entering) = Returns MIMPI_ERROR_DEADLOCK_DETECTED
   \<and> fst (MIMPI_Send (snd (MIMPI_Barrier status_leaf_entering)) [1, 2, 3, 4] 4 0 5)
       = MIMPI_SUCCESS
   \<and> priv_MIMPI_Recv status_root_served [0, 0, 0, 0] 4 1 5
       = (Returns MIMPI_SUCCESS, status_root_entering, [1, 2, 3, 4])
   \<and> fst (MIMPI_Barrier status_root_entering) = Returns MIMPI_SUCCESS"
proof -
  have "fst (MIMPI_Barrier status_leaf_entering) = Returns MIMPI_ERROR_DEADLOCK_DETECTED"
    using leaf_barrier by auto
  moreover have "priv_MIMPI_Recv status_root_served [0, 0, 0, 0] 4 1 5
       = (Returns MIMPI_SUCCESS, status_root_entering, [1, 2, 3, 4])"
    using root_recv by (auto simp: status_root_entering_def)
  ultimately show ?thesis
    using root_waiting(1) leaf_sent(1) root_barrier by simp
qed

subsection \<open>The result of a reduction\<close>




lemma Reduce_bytes_simps [simp]:
  "Reduce_bytes op [] ys = []" "Reduce_bytes op xs [] = []"
  "Reduce_bytes op (x # xs) (y # ys) = Reduce_byte op x y # Reduce_bytes op xs ys"
  by (simp_all add: Reduce_bytes_def)






















































subsection \<open>Order of delivery: deadlock detection and empty messages\<close>









text \<open>
  A message of no bytes. \<^verbatim>\<open>_Receiver_Receive\<close> returns before it assigns \<open>*data\<close>, so the node
  of the message holds the pointer of the packet before it: here the block of the first
  message. The first receive deletes that node and frees the block; the second receive
  deletes the node of the empty message and frees the same block again.
\<close>

lemma empty_send_frees_twice:
  "fst (Send_sequence (MIMPI_Init 0 2 fresh_channels False) 1 empty_sends)
     = [MIMPI_SUCCESS, MIMPI_SUCCESS]
   \<and> map im_block (ib_entries (MIMPI_inboxes empty_send_receiver 0)) = [Block 0, Block 0]
   \<and> fst (Recv_sequence empty_send_receiver 0 [([0], 1, 5), ([], 0, 5)])
       = [(Returns MIMPI_SUCCESS, [1]), (Undefined, [])]"
proof -
  let ?st0 = "MIMPI_Init 0 2 fresh_channels False"
  have v: "valid_peer ?st0 1" "ch_open (MIMPI_writers ?st0 1)"
    by (simp_all add: valid_peer_def MIMPI_Init_def fresh_channels_def word_sle_eq word_sless_alt)
  note sent = Send_sequence_open [OF v, of empty_sends]
  have bytes: "ch_bytes (MIMPI_writers (snd (Send_sequence ?st0 1 empty_sends)) 1)
      = frame_bytes 1 5 [1] @ frame_bytes 0 5 [] @ []"
    using sent by (simp add: empty_sends_def frame_of_send_def MIMPI_Init_def fresh_channels_def)
  have g: "(5 :: c_int) \<noteq> MIMPI_CLOSE_TAG" "(5 :: c_int) \<noteq> MIMPI_REQUEST_TAG" "(1 :: size_t) \<noteq> 0"
    by (simp_all add: MIMPI_CLOSE_TAG_def MIMPI_REQUEST_TAG_def)
  have e: "Receiver_Main_loop inbox 5 1 (Block 0) [1] (frame_bytes 0 5 [])
      = Inbox_Save_Message inbox 5 0 (Block 0) [1]" for inbox
    using Receiver_Receive_frame [of 5 1 "[1]" 0 5 "[]" "[]"]
    by (subst Receiver_Main_loop.simps)
      (simp add: Receiver_malloc_def Receiver_data_def MIMPI_CLOSE_TAG_def
        MIMPI_REQUEST_TAG_def)
  have r: "Receiver_Main_loop (Inbox_Init 0) 0 0 Indeterminate []
      (frame_bytes 1 5 [1] @ frame_bytes 0 5 [] @ [])
    = \<lparr>ib_rank = 0, ib_entries =
        [\<lparr>im_type = INBOX_MESSAGE, im_tag = 5, im_size = 1, im_block = Block 0, im_data = [1]\<rparr>,
         \<lparr>im_type = INBOX_MESSAGE, im_tag = 5, im_size = 0, im_block = Block 0, im_data = [1]\<rparr>],
        ib_deadlocks = 0, ib_blocks = 1, ib_heap = Some {}\<rparr>"
    unfolding Receiver_Main_loop_message [OF g]
    by (simp add: e Inbox_Save_Message_def priv_Inbox_Save_def Inbox_Init_def read_bytes_def)
  let ?st = empty_send_receiver
  have st: "MIMPI_World_rank ?st = 1" "MIMPI_World_size ?st = 2"
    "\<not> MIMPI_deadlock_detection ?st" "MIMPI_outboxes ?st = None"
    "MIMPI_inboxes ?st 0 = \<lparr>ib_rank = 0, ib_entries =
        [\<lparr>im_type = INBOX_MESSAGE, im_tag = 5, im_size = 1, im_block = Block 0, im_data = [1]\<rparr>,
         \<lparr>im_type = INBOX_MESSAGE, im_tag = 5, im_size = 0, im_block = Block 0, im_data = [1]\<rparr>],
        ib_deadlocks = 0, ib_blocks = 1, ib_heap = Some {}\<rparr>"
    unfolding empty_send_receiver_def deliver_def bytes r
    by (simp_all add: MIMPI_Init_def)
  have "fst (Recv_sequence ?st 0 [([0], 1, 5), ([], 0, 5)])
       = [(Returns MIMPI_SUCCESS, [1]), (Undefined, [])]"
    using st
    by (simp add: MIMPI_Recv_def priv_MIMPI_Recv_def priv_MIMPI_Deadlock_Request_def
        Inbox_Retrieve_def Let_def priv_Inbox_Match_def MIMPI_ANY_TAG_def readable_def
        priv_Inbox_Delete_def free_def memmove_def read_bytes_def word_sle_eq word_sless_alt
        split: prod.splits)
  then show ?thesis
    using sent st(5) by (simp add: empty_sends_def)
qed

end
